theory Spec2Isabelle
  imports Main "HOL-Library.Sublist" "HOL-Library.Char_ord" "HOL-Library.List_Lexorder"
    "HOL-Library.Product_Lexorder" "HOL-Library.AList"
begin

section \<open>Rows and data frames\<close>

text \<open>
  The ingestion job of \<^verbatim>\<open>scripts/ingest_job.py\<close> moves JSON rows from a paginated
  remote source into a raw tier and a curated, deduplicated table. A row is a Python
  dictionary from field names to scalars, kept here as an association list; a cell that
  a row does not have is the missing value of the pandas frame built from the rows
  (NaN). JSON nulls, floats and nested values are not modelled: a cell holds an integer
  or a string, or it is missing.
\<close>

datatype val = VInt int | VStr string

type_synonym row = "(string \<times> val) list"

type_synonym frame = "row list"

definition cell :: "row \<Rightarrow> string \<Rightarrow> val option" where
  "cell r c = map_of r c"

text \<open>\<^verbatim>\<open>c in df.columns\<close>: the columns of a frame built from dictionaries are the keys that
  occur in some row.\<close>

definition has_column :: "string \<Rightarrow> frame \<Rightarrow> bool" where
  "has_column c df = list_ex (\<lambda>r. cell r c \<noteq> None) df"

text \<open>\<^verbatim>\<open>df.empty\<close>: no rows, or no columns.\<close>

definition empty_frame :: "frame \<Rightarrow> bool" where
  "empty_frame df = list_all (\<lambda>r. r = []) df"

datatype error =
    TypeError
  | HTTPError
  | OSError
  | JSONDecodeError
  | AttributeError
  | ArrowError
  | ExtractorError

subsection \<open>Sorting by a column\<close>

text \<open>
  \<^verbatim>\<open>df.sort_values(by=col)\<close> orders the rows by the column, ascending, with the rows whose
  cell is missing last. The cells are compared with Python's \<^verbatim>\<open><\<close>: integers by value,
  strings by code point, and an integer against a string raises \<^verbatim>\<open>TypeError\<close>. The sort
  key below places integers, strings and missing cells in three bands; the bands of
  integers and strings never meet in a frame that \<open>sort_values\<close> accepts. Rows with equal
  cells keep their order here (a stable sort); pandas' default algorithm does not promise
  that, and no theorem below depends on the order of rows with equal timestamps unless
  it says so.
\<close>

fun val_kind :: "val \<Rightarrow> nat" where
  "val_kind (VInt _) = 0"
| "val_kind (VStr _) = 1"

fun val_le :: "val \<Rightarrow> val \<Rightarrow> bool" where
  "val_le (VInt a) (VInt b) = (a \<le> b)"
| "val_le (VStr a) (VStr b) = (a \<le> b)"
| "val_le _ _ = False"

definition column_kinds :: "string \<Rightarrow> frame \<Rightarrow> nat list" where
  "column_kinds c df = remdups (map val_kind (List.map_filter (\<lambda>r. cell r c) df))"

definition comparable_column :: "string \<Rightarrow> frame \<Rightarrow> bool" where
  "comparable_column c df = (length (column_kinds c df) \<le> 1)"

definition order_key :: "string \<Rightarrow> row \<Rightarrow> nat \<times> int \<times> string" where
  "order_key c r =
     (case cell r c of
        None \<Rightarrow> (2, 0, [])
      | Some (VInt i) \<Rightarrow> (0, i, [])
      | Some (VStr s) \<Rightarrow> (1, 0, s))"

definition sort_values :: "string \<Rightarrow> frame \<Rightarrow> error + frame" where
  "sort_values c df =
     (if comparable_column c df then Inr (sort_key (order_key c) df) else Inl TypeError)"

subsection \<open>Dropping duplicates\<close>

text \<open>
  \<^verbatim>\<open>df.drop_duplicates(subset=[pk], keep='last')\<close> keeps a row when no later row has an
  equal cell in column \<open>pk\<close>. pandas counts two missing cells as equal, so rows without
  the key are duplicates of one another.
\<close>

fun drop_duplicates_last :: "string \<Rightarrow> frame \<Rightarrow> frame" where
  "drop_duplicates_last pk [] = []"
| "drop_duplicates_last pk (r # rs) =
     (if cell r pk \<in> set (map (\<lambda>r'. cell r' pk) rs) then drop_duplicates_last pk rs
      else r # drop_duplicates_last pk rs)"

subsection \<open>The merge of \<open>process_dataset\<close>\<close>

text \<open>
  Lines 174 to 195 of \<^verbatim>\<open>ingest_job.py\<close>: the existing rows and the delta are concatenated
  (existing first) unless the existing frame is empty; if the primary-key column is
  there, the frame is sorted by \<^verbatim>\<open>:updated_at\<close> when that column is there, and all but
  the last row of each key are dropped.
\<close>

definition updated_at :: string where
  "updated_at = '':updated_at''"

definition concat_frames :: "frame \<Rightarrow> frame \<Rightarrow> frame" where
  "concat_frames df_existing df_delta =
     (if \<not> empty_frame df_existing then df_existing @ df_delta else df_delta)"

definition merge_frames :: "string \<Rightarrow> frame \<Rightarrow> frame \<Rightarrow> error + frame" where
  "merge_frames pk df_existing df_delta =
     (let df_final = concat_frames df_existing df_delta
      in if has_column pk df_final then
           (if has_column updated_at df_final then
              (case sort_values updated_at df_final of
                 Inl e \<Rightarrow> Inl e
               | Inr sorted_df \<Rightarrow> Inr (drop_duplicates_last pk sorted_df))
            else Inr (drop_duplicates_last pk df_final))
         else Inr df_final)"

text \<open>The order of two rows by their update timestamps, as Python compares the cells.\<close>

definition ts_le :: "row \<Rightarrow> row \<Rightarrow> bool" where
  "ts_le r' r =
     (case (cell r' updated_at, cell r updated_at) of
        (Some a, Some b) \<Rightarrow> val_le a b
      | _ \<Rightarrow> False)"

section \<open>Timestamps\<close>

text \<open>
  The watermark is a string. \<open>process_dataset\<close> reads it with
  \<^verbatim>\<open>datetime.fromisoformat(watermark.replace('Z', '+00:00'))\<close>, subtracts
  \<^verbatim>\<open>timedelta(hours=SAFETY_LAG_HOURS)\<close> and writes the result with \<^verbatim>\<open>isoformat()\<close>.
  These are functions of Python's standard library. Which spellings
  \<^verbatim>\<open>datetime.fromisoformat\<close> reads depends on the interpreter (3.11 reads many more than
  3.10), so the reader of the fields is a parameter of the model: a function from strings
  to field values, \<open>None\<close> where the interpreter raises \<^verbatim>\<open>ValueError\<close>. What every
  interpreter has in common is kept: the result is a \<^verbatim>\<open>datetime\<close> object, whose constructor
  refuses fields out of range. The offset from UTC is counted in microseconds.
\<close>

record datetime =
  year :: nat
  month :: nat
  day :: nat
  hour :: nat
  minute :: nat
  second :: nat
  microsecond :: nat
  tzoffset :: "int option"

definition SAFETY_LAG_HOURS :: nat where
  "SAFETY_LAG_HOURS = 2"

definition is_leap :: "nat \<Rightarrow> bool" where
  "is_leap y = (y mod 4 = 0 \<and> (y mod 100 \<noteq> 0 \<or> y mod 400 = 0))"

definition days_in_month :: "nat \<Rightarrow> nat \<Rightarrow> nat" where
  "days_in_month y m =
     (if m = 2 then (if is_leap y then 29 else 28)
      else if m = 4 \<or> m = 6 \<or> m = 9 \<or> m = 11 then 30 else 31)"

definition valid_date :: "nat \<Rightarrow> nat \<Rightarrow> nat \<Rightarrow> bool" where
  "valid_date y m d = (1 \<le> y \<and> y \<le> 9999 \<and> 1 \<le> m \<and> m \<le> 12 \<and> 1 \<le> d \<and> d \<le> days_in_month y m)"

definition valid_datetime :: "datetime \<Rightarrow> bool" where
  "valid_datetime dt =
     (valid_date (year dt) (month dt) (day dt) \<and> hour dt < 24 \<and> minute dt < 60 \<and>
      second dt < 60 \<and> int (microsecond dt) < 1000000 \<and>
      (case tzoffset dt of None \<Rightarrow> True | Some off \<Rightarrow> \<bar>off\<bar> < 86400000000))"

text \<open>\<^verbatim>\<open>datetime.fromisoformat\<close>, over the interpreter's reader of the fields.\<close>

definition fromisoformat :: "(string \<Rightarrow> datetime option) \<Rightarrow> string \<Rightarrow> datetime option" where
  "fromisoformat reader s =
     (case reader s of
        None \<Rightarrow> None
      | Some dt \<Rightarrow> if valid_datetime dt then Some dt else None)"

text \<open>
  One reader, for the closed examples: the format that the documentation of Python 3.7 to
  3.10 gives for \<^verbatim>\<open>datetime.fromisoformat\<close>,
  \<^verbatim>\<open>YYYY-MM-DD[*HH[:MM[:SS[.fff[fff]]]][+HH:MM[:SS[.ffffff]]]]\<close>, where \<^verbatim>\<open>*\<close> is any one
  character. The time is split from the offset at the first sign.
\<close>

definition is_digit :: "char \<Rightarrow> bool" where
  "is_digit c = (CHR ''0'' \<le> c \<and> c \<le> CHR ''9'')"

definition parse_nat :: "string \<Rightarrow> nat option" where
  "parse_nat s =
     (if s \<noteq> [] \<and> list_all is_digit s
      then Some (foldl (\<lambda>n c. 10 * n + (of_char c - 48)) 0 s) else None)"

definition parse_date :: "string \<Rightarrow> (nat \<times> nat \<times> nat) option" where
  "parse_date s =
     (if length s = 10 \<and> s ! 4 = CHR ''-'' \<and> s ! 7 = CHR ''-'' then
        (case (parse_nat (take 4 s), parse_nat (take 2 (drop 5 s)), parse_nat (drop 8 s)) of
           (Some y, Some m, Some d) \<Rightarrow> Some (y, m, d)
         | _ \<Rightarrow> None)
      else None)"

text \<open>\<^verbatim>\<open>HH[:MM[:SS[.fff[fff]]]]\<close>: hours, minutes, seconds and microseconds.\<close>

definition parse_clock :: "string \<Rightarrow> (nat \<times> nat \<times> nat \<times> nat) option" where
  "parse_clock s =
     (let n = length s in
      if n = 2 then map_option (\<lambda>h. (h, 0, 0, 0)) (parse_nat s)
      else if n = 5 \<and> s ! 2 = CHR '':'' then
        (case (parse_nat (take 2 s), parse_nat (drop 3 s)) of
           (Some h, Some m) \<Rightarrow> Some (h, m, 0, 0)
         | _ \<Rightarrow> None)
      else if n = 8 \<and> s ! 2 = CHR '':'' \<and> s ! 5 = CHR '':'' then
        (case (parse_nat (take 2 s), parse_nat (take 2 (drop 3 s)), parse_nat (drop 6 s)) of
           (Some h, Some m, Some sec) \<Rightarrow> Some (h, m, sec, 0)
         | _ \<Rightarrow> None)
      else if (n = 12 \<or> n = 15) \<and> s ! 2 = CHR '':'' \<and> s ! 5 = CHR '':'' \<and> s ! 8 = CHR ''.'' then
        (case (parse_nat (take 2 s), parse_nat (take 2 (drop 3 s)), parse_nat (take 2 (drop 6 s)),
               parse_nat (drop 9 s)) of
           (Some h, Some m, Some sec, Some f) \<Rightarrow>
             Some (h, m, sec, if n = 12 then 1000 * f else f)
         | _ \<Rightarrow> None)
      else None)"

text \<open>\<^verbatim>\<open>[+HH:MM[:SS[.ffffff]]]\<close>: no offset, or its microseconds east of UTC.\<close>

definition parse_zone :: "string \<Rightarrow> int option option" where
  "parse_zone s =
     (case s of
        [] \<Rightarrow> Some None
      | c # rest \<Rightarrow>
          if length rest = 5 \<or> length rest = 8 \<or> length rest = 15 then
            (case parse_clock rest of
               None \<Rightarrow> None
             | Some (h, m, sec, f) \<Rightarrow>
                 Some (Some ((if c = CHR ''-'' then - 1 else 1) *
                   ((int h * 3600 + int m * 60 + int sec) * 1000000 + int f))))
          else None)"

definition is_sign :: "char \<Rightarrow> bool" where
  "is_sign c = (c = CHR ''+'' \<or> c = CHR ''-'')"

definition documented_format :: "string \<Rightarrow> datetime option" where
  "documented_format s =
     (case parse_date (take 10 s) of
        None \<Rightarrow> None
      | Some (y, m, d) \<Rightarrow>
          if length s = 10 then
            Some \<lparr>year = y, month = m, day = d, hour = 0, minute = 0, second = 0,
                  microsecond = 0, tzoffset = None\<rparr>
          else
            (case parse_clock (takeWhile (\<lambda>c. \<not> is_sign c) (drop 11 s)) of
               None \<Rightarrow> None
             | Some (h, mi, sec, us) \<Rightarrow>
                 (case parse_zone (dropWhile (\<lambda>c. \<not> is_sign c) (drop 11 s)) of
                    None \<Rightarrow> None
                  | Some tz \<Rightarrow>
                      Some \<lparr>year = y, month = m, day = d, hour = h, minute = mi,
                            second = sec, microsecond = us, tzoffset = tz\<rparr>)))"

text \<open>\<^verbatim>\<open>str.replace('Z', '+00:00')\<close> replaces every \<^verbatim>\<open>Z\<close>.\<close>

definition replace_Z :: "string \<Rightarrow> string" where
  "replace_Z s = concat (map (\<lambda>c. if c = CHR ''Z'' then ''+00:00'' else [c]) s)"

text \<open>Decimal digits, padded with zeros on the left to a width.\<close>

fun pad_digits :: "nat \<Rightarrow> nat \<Rightarrow> string" where
  "pad_digits 0 n = []"
| "pad_digits (Suc w) n = pad_digits w (n div 10) @ [char_of (48 + n mod 10)]"

text \<open>The offset as \<^verbatim>\<open>isoformat()\<close> writes it: \<^verbatim>\<open>+HH:MM\<close>, with the seconds when they are not
  zero and the microseconds when they are not zero.\<close>

definition format_offset :: "int \<Rightarrow> string" where
  "format_offset off =
     (let a = \<bar>off\<bar>;
          hh = a div 3600000000;
          mm = a mod 3600000000 div 60000000;
          ss = a mod 60000000 div 1000000;
          us = a mod 1000000
      in (if off < 0 then ''-'' else ''+'') @ pad_digits 2 (nat hh) @ '':'' @ pad_digits 2 (nat mm) @
         (if ss \<noteq> 0 \<or> us \<noteq> 0 then
            '':'' @ pad_digits 2 (nat ss) @ (if us \<noteq> 0 then ''.'' @ pad_digits 6 (nat us) else [])
          else []))"

definition isoformat :: "datetime \<Rightarrow> string" where
  "isoformat dt =
     pad_digits 4 (year dt) @ ''-'' @ pad_digits 2 (month dt) @ ''-'' @ pad_digits 2 (day dt) @
     ''T'' @ pad_digits 2 (hour dt) @ '':'' @ pad_digits 2 (minute dt) @ '':'' @
     pad_digits 2 (second dt) @
     (if microsecond dt \<noteq> 0 then ''.'' @ pad_digits 6 (microsecond dt) else []) @
     (case tzoffset dt of None \<Rightarrow> [] | Some off \<Rightarrow> format_offset off)"

text \<open>
  \<^verbatim>\<open>dt - timedelta(hours=SAFETY_LAG_HOURS)\<close>: the wall-clock fields move back by the lag and
  the offset stays. A result before the first day of year 1 is Python's
  \<^verbatim>\<open>OverflowError\<close>, here \<open>None\<close>.
\<close>

definition prev_day :: "nat \<Rightarrow> nat \<Rightarrow> nat \<Rightarrow> (nat \<times> nat \<times> nat) option" where
  "prev_day y m d =
     (if 1 < d then Some (y, m, d - 1)
      else if 1 < m then Some (y, m - 1, days_in_month y (m - 1))
      else if 1 < y then Some (y - 1, 12, 31)
      else None)"

definition minus_lag :: "datetime \<Rightarrow> datetime option" where
  "minus_lag dt =
     (if SAFETY_LAG_HOURS \<le> hour dt then Some (dt\<lparr>hour := hour dt - SAFETY_LAG_HOURS\<rparr>)
      else
        (case prev_day (year dt) (month dt) (day dt) of
           None \<Rightarrow> None
         | Some (y, m, d) \<Rightarrow>
             Some (dt\<lparr>year := y, month := m, day := d,
                      hour := hour dt + 24 - SAFETY_LAG_HOURS\<rparr>)))"

text \<open>The proleptic Gregorian day number (\<^verbatim>\<open>date.toordinal()\<close>) and the microseconds of a
  wall-clock reading since the start of day 0, to say what "two hours earlier" means.\<close>

definition days_before_year :: "nat \<Rightarrow> nat" where
  "days_before_year y = (y - 1) * 365 + (y - 1) div 4 - (y - 1) div 100 + (y - 1) div 400"

definition days_before_month :: "nat \<Rightarrow> nat \<Rightarrow> nat" where
  "days_before_month y m = sum_list (map (days_in_month y) [1..<m])"

definition toordinal :: "nat \<Rightarrow> nat \<Rightarrow> nat \<Rightarrow> nat" where
  "toordinal y m d = days_before_year y + days_before_month y m + d"

definition wall_micros :: "datetime \<Rightarrow> int" where
  "wall_micros dt =
     (((int (toordinal (year dt) (month dt) (day dt)) * 24 + int (hour dt)) * 60
        + int (minute dt)) * 60 + int (second dt)) * 1000000 + int (microsecond dt)"

subsection \<open>Mode and fetch-since\<close>

text \<open>Lines 92 to 111 of \<^verbatim>\<open>ingest_job.py\<close>. \<^verbatim>\<open>not watermark\<close> holds for \<^verbatim>\<open>None\<close> and for the
  empty string. Every exception of the \<^verbatim>\<open>try\<close> block is caught and logged as a warning,
  and \<open>fetch_since\<close> keeps its initial \<^verbatim>\<open>None\<close>.\<close>

definition truthy :: "string option \<Rightarrow> bool" where
  "truthy w = (w \<noteq> None \<and> w \<noteq> Some [])"

definition is_bootstrap_of :: "string \<Rightarrow> string option \<Rightarrow> bool" where
  "is_bootstrap_of mode watermark =
     (mode = ''bootstrap'' \<or> (mode = ''auto'' \<and> \<not> truthy watermark))"

definition fetch_since_of ::
  "(string \<Rightarrow> datetime option) \<Rightarrow> bool \<Rightarrow> string option \<Rightarrow> string option" where
  "fetch_since_of reader is_bootstrap watermark =
     (case watermark of
        None \<Rightarrow> None
      | Some wm \<Rightarrow>
          if \<not> is_bootstrap \<and> wm \<noteq> [] then
            (case fromisoformat reader (replace_Z wm) of
               None \<Rightarrow> None
             | Some dt \<Rightarrow>
                 (case minus_lag dt of
                    None \<Rightarrow> None
                  | Some dt_lag \<Rightarrow> Some (isoformat dt_lag)))
          else None)"

subsection \<open>Query parameters\<close>

text \<open>Lines 64 to 73: the parameters of one page request.\<close>

record params =
  limit :: nat
  order :: string
  where_clause :: "string option"
  offset :: nat

definition page_limit :: nat where
  "page_limit = 2000"

definition fetch_params :: "string option \<Rightarrow> nat \<Rightarrow> params" where
  "fetch_params since off =
     \<lparr>limit = page_limit, order = '':updated_at'',
      where_clause =
        (case since of
           None \<Rightarrow> None
         | Some s \<Rightarrow> if s \<noteq> [] then Some ('':updated_at > '' @ [CHR 0x27] @ s @ [CHR 0x27]) else None),
      offset = off\<rparr>"

section \<open>The environment and the bucket\<close>

text \<open>
  The job talks to three things it does not control: the remote source
  (\<^verbatim>\<open>SodaClient.get_json\<close>, which returns the rows of a page or raises), the clock
  (\<^verbatim>\<open>datetime.utcnow()\<close>) and the storage under the mounted bucket, where a write may fail
  after part of the bytes have reached the file. The environment fixes the outcome of
  every such interaction by its position in the run: \<open>tick\<close> counts the interactions so
  far. It also fixes the interpreter: \<open>iso_reader\<close> is the reader of the fields behind its
  \<^verbatim>\<open>datetime.fromisoformat\<close>.
\<close>

record env =
  get_json :: "nat \<Rightarrow> string \<Rightarrow> params \<Rightarrow> error + row list"
  utcnow :: "nat \<Rightarrow> datetime"
  write_fails :: "nat \<Rightarrow> bool"
  iso_reader :: "string \<Rightarrow> datetime option"

text \<open>
  A file of the bucket holds what the job serialised into it, or is torn: a proper prefix
  of those bytes, left by a write that failed, which no reader accepts. Paths are the
  relative keys that \<^verbatim>\<open>R2FS._abs\<close> joins to the mount path; two paths name the same file
  when they are equal as strings (dataset keys and run ids are taken to be plain path
  components, without \<^verbatim>\<open>..\<close>). The bucket lists every path once, and a listing
  follows its order. The job is modelled on \<^verbatim>\<open>R2FS\<close>, the helper that \<^verbatim>\<open>get_r2\<close> returns
  when the mount exists.
\<close>

datatype content =
    RawRows "row list"
  | Meta nat string bool
  | State "string option" string
  | Parquet frame
  | Velocity nat
  | Catalog "string list" string

datatype stored = Whole content | Torn content

type_synonym bucket = "(string \<times> stored) list"

record world =
  r2 :: bucket
  tick :: nat

subsection \<open>\<^verbatim>\<open>R2FS\<close>\<close>

text \<open>
  \<^verbatim>\<open>R2FS.write_bytes\<close> (\<^verbatim>\<open>r2_storage.py\<close>, lines 48 to 53) writes the bytes to a sibling
  \<^verbatim>\<open>.tmp\<close> file and renames it over the target. \<^verbatim>\<open>write_text\<close> and \<^verbatim>\<open>write_json\<close> encode their
  argument and call it.
\<close>

definition write_bytes :: "env \<Rightarrow> string \<Rightarrow> content \<Rightarrow> world \<Rightarrow> (error + unit) \<times> world" where
  "write_bytes env rel data w =
     (let tmp = rel @ ''.tmp'' in
      if write_fails env (tick w) then
        (Inl OSError, \<lparr>r2 = AList.update tmp (Torn data) (r2 w), tick = Suc (tick w)\<rparr>)
      else
        (Inr (), \<lparr>r2 = AList.update rel (Whole data) (AList.delete tmp (r2 w)),
                  tick = Suc (tick w)\<rparr>))"

text \<open>\<^verbatim>\<open>R2FS.exists\<close> and \<^verbatim>\<open>R2FS.list\<close> (recursive): the path itself if it is a file, else the
  files below it.\<close>

definition exists_file :: "bucket \<Rightarrow> string \<Rightarrow> bool" where
  "exists_file b rel = (map_of b rel \<noteq> None)"

definition list_files :: "bucket \<Rightarrow> string \<Rightarrow> string list" where
  "list_files b pre =
     (if exists_file b pre then [pre]
      else filter (\<lambda>p. prefix (pre @ ''/'') p) (map fst b))"

subsection \<open>Parquet files\<close>

text \<open>
  \<^verbatim>\<open>pd.read_parquet\<close> raises on anything but a complete Parquet file.
  \<^verbatim>\<open>df.to_parquet(path)\<close> converts the frame first, which fails on a column that mixes
  integers and strings, and then writes the bytes straight into \<open>path\<close>.
\<close>

definition read_parquet :: "bucket \<Rightarrow> string \<Rightarrow> error + frame" where
  "read_parquet b path =
     (case map_of b path of
        Some (Whole (Parquet df)) \<Rightarrow> Inr df
      | _ \<Rightarrow> Inl OSError)"

definition frame_columns :: "frame \<Rightarrow> string list" where
  "frame_columns df = remdups (concat (map (map fst) df))"

definition arrow_convertible :: "frame \<Rightarrow> bool" where
  "arrow_convertible df = list_all (\<lambda>c. comparable_column c df) (frame_columns df)"

definition to_parquet :: "env \<Rightarrow> string \<Rightarrow> frame \<Rightarrow> world \<Rightarrow> (error + unit) \<times> world" where
  "to_parquet env path df w =
     (if \<not> arrow_convertible df then (Inl ArrowError, w)
      else if write_fails env (tick w) then
        (Inl OSError, \<lparr>r2 = AList.update path (Torn (Parquet df)) (r2 w), tick = Suc (tick w)\<rparr>)
      else
        (Inr (), \<lparr>r2 = AList.update path (Whole (Parquet df)) (r2 w), tick = Suc (tick w)\<rparr>))"

section \<open>The ingestion job\<close>

subsection \<open>\<open>fetch_socrata_pages\<close>\<close>

text \<open>Lines 61 to 83. The loop has no bound of its own: it is defined as a function that
  may not return.\<close>

partial_function (option) fetch_loop ::
  "env \<Rightarrow> string \<Rightarrow> string option \<Rightarrow> nat \<Rightarrow> row list \<Rightarrow> world \<Rightarrow> ((error + row list) \<times> world) option"
where
  "fetch_loop env sid since off all_rows w =
     (case get_json env (tick w) sid (fetch_params since off) of
        Inl e \<Rightarrow> Some (Inl e, w\<lparr>tick := Suc (tick w)\<rparr>)
      | Inr rows \<Rightarrow>
          if rows = [] then Some (Inr all_rows, w\<lparr>tick := Suc (tick w)\<rparr>)
          else if length rows < page_limit then
            Some (Inr (all_rows @ rows), w\<lparr>tick := Suc (tick w)\<rparr>)
          else fetch_loop env sid since (off + page_limit) (all_rows @ rows)
                 (w\<lparr>tick := Suc (tick w)\<rparr>))"

declare fetch_loop.simps [code]

definition fetch_socrata_pages ::
  "env \<Rightarrow> string \<Rightarrow> string option \<Rightarrow> world \<Rightarrow> ((error + row list) \<times> world) option"
where
  "fetch_socrata_pages env sid since w = fetch_loop env sid since 0 [] w"

text \<open>The answer of the source to the \<open>k\<close>-th request of a fetch that starts in \<open>w\<close>.\<close>

definition page_response :: "env \<Rightarrow> string \<Rightarrow> string option \<Rightarrow> world \<Rightarrow> nat \<Rightarrow> error + row list" where
  "page_response env sid since w k =
     get_json env (tick w + k) sid (fetch_params since (k * page_limit))"

definition full_page :: "error + row list \<Rightarrow> bool" where
  "full_page r = (case r of Inl e \<Rightarrow> False | Inr rows \<Rightarrow> page_limit \<le> length rows)"

definition page_rows :: "error + row list \<Rightarrow> row list" where
  "page_rows r = (case r of Inl e \<Rightarrow> [] | Inr rows \<Rightarrow> rows)"

subsection \<open>\<open>process_dataset\<close>\<close>

text \<open>
  A dataset's configuration, as in \<^verbatim>\<open>DATASET_CONFIG\<close>. The extractor is handed the path of
  a local temporary copy of the fetched rows and returns the normalised rows; here it is
  a function of the rows. The temporary copy under \<^verbatim>\<open>/tmp\<close> is not part of the bucket and
  is left out.
\<close>

record dataset_config =
  cfg_soda_id :: string
  cfg_extractor :: "row list \<Rightarrow> error + frame"
  cfg_pk :: "string option"
  cfg_date_field :: string

definition pk_of :: "dataset_config \<Rightarrow> string" where
  "pk_of config = (case cfg_pk config of None \<Rightarrow> ''id'' | Some k \<Rightarrow> k)"

definition raw_dir :: "string \<Rightarrow> string \<Rightarrow> string" where
  "raw_dir key run_id = ''raw/'' @ key @ ''/'' @ run_id"

definition r2_raw_key :: "string \<Rightarrow> string \<Rightarrow> bool \<Rightarrow> string" where
  "r2_raw_key key run_id is_bootstrap =
     raw_dir key run_id @ ''/'' @ (if is_bootstrap then ''full'' else ''delta'') @ ''.json''"

definition curated_dir :: "string \<Rightarrow> string" where
  "curated_dir key = ''curated/'' @ key @ ''/parquet''"

text \<open>Lines 116 to 130: the raw snapshot and its metadata.\<close>

definition store_raw ::
  "env \<Rightarrow> string \<Rightarrow> string \<Rightarrow> bool \<Rightarrow> row list \<Rightarrow> world \<Rightarrow> (error + unit) \<times> world" where
  "store_raw env run_id key is_bootstrap raw_rows w =
     (case write_bytes env (r2_raw_key key run_id is_bootstrap) (RawRows raw_rows) w of
        (Inl e, w1) \<Rightarrow> (Inl e, w1)
      | (Inr _, w1) \<Rightarrow>
          write_bytes env (raw_dir key run_id @ ''/meta.json'')
            (Meta (length raw_rows) (isoformat (utcnow env (tick w1))) is_bootstrap)
            (w1\<lparr>tick := Suc (tick w1)\<rparr>))"

text \<open>Lines 156 to 172: the existing curated rows. A file that cannot be read is logged
  and skipped.\<close>

definition load_existing :: "bucket \<Rightarrow> string \<Rightarrow> bool \<Rightarrow> frame" where
  "load_existing b dir is_bootstrap =
     (let existing_files = list_files b dir in
      if \<not> is_bootstrap \<and> existing_files \<noteq> [] then
        concat (List.map_filter
          (\<lambda>fpath. case read_parquet b fpath of Inl e \<Rightarrow> None | Inr df \<Rightarrow> Some df)
          existing_files)
      else [])"

text \<open>Lines 147 to 209: merge and write back.\<close>

definition upsert_curated ::
  "env \<Rightarrow> string \<Rightarrow> dataset_config \<Rightarrow> bool \<Rightarrow> frame \<Rightarrow> world \<Rightarrow> (error + unit) \<times> world" where
  "upsert_curated env key config is_bootstrap df_delta w =
     (let df_existing = load_existing (r2 w) (curated_dir key) is_bootstrap in
      case merge_frames (pk_of config) df_existing df_delta of
        Inl e \<Rightarrow> (Inl e, w)
      | Inr df_final \<Rightarrow> to_parquet env (curated_dir key @ ''/data.parquet'') df_final w)"

definition after_fetch ::
  "env \<Rightarrow> string \<Rightarrow> string \<Rightarrow> dataset_config \<Rightarrow> bool \<Rightarrow> row list \<Rightarrow> world \<Rightarrow> (error + unit) \<times> world" where
  "after_fetch env run_id key config is_bootstrap raw_rows w =
     (case store_raw env run_id key is_bootstrap raw_rows w of
        (Inl e, w1) \<Rightarrow> (Inl e, w1)
      | (Inr _, w1) \<Rightarrow>
          (case cfg_extractor config raw_rows of
             Inl e \<Rightarrow> (Inl e, w1)
           | Inr df_delta \<Rightarrow>
               if empty_frame df_delta then (Inr (), w1)
               else upsert_curated env key config is_bootstrap df_delta w1))"

definition process_dataset ::
  "env \<Rightarrow> string \<Rightarrow> string \<Rightarrow> string \<Rightarrow> dataset_config \<Rightarrow> string option \<Rightarrow> world \<Rightarrow>
     ((error + unit) \<times> world) option" where
  "process_dataset env run_id mode key config watermark w =
     (let is_bootstrap = is_bootstrap_of mode watermark;
          fetch_since = fetch_since_of (iso_reader env) is_bootstrap watermark
      in case fetch_socrata_pages env (cfg_soda_id config) fetch_since w of
           None \<Rightarrow> None
         | Some (Inl e, w1) \<Rightarrow> Some (Inl e, w1)
         | Some (Inr raw_rows, w1) \<Rightarrow>
             Some (after_fetch env run_id key config is_bootstrap raw_rows w1))"

subsection \<open>\<open>run\<close>\<close>

text \<open>Lines 263 to 267: the stored watermark. \<^verbatim>\<open>read_json\<close> raises on a file that is not
  JSON, and \<^verbatim>\<open>state.get\<close> on a JSON list.\<close>

definition read_watermark :: "bucket \<Rightarrow> string \<Rightarrow> error + string option" where
  "read_watermark b state_path =
     (case map_of b state_path of
        None \<Rightarrow> Inr None
      | Some (Torn _) \<Rightarrow> Inl JSONDecodeError
      | Some (Whole c) \<Rightarrow>
          (case c of
             State wm rid \<Rightarrow> Inr wm
           | RawRows _ \<Rightarrow> Inl AttributeError
           | Parquet _ \<Rightarrow> Inl JSONDecodeError
           | _ \<Rightarrow> Inr None))"

definition state_path :: "string \<Rightarrow> string" where
  "state_path ds = ''curated/'' @ ds @ ''/_state.json''"

text \<open>The loop of lines 260 to 276. An exception leaves the loop: there is no handler.\<close>

fun run_datasets ::
  "env \<Rightarrow> (string \<times> dataset_config) list \<Rightarrow> string \<Rightarrow> string \<Rightarrow> string list \<Rightarrow> world \<Rightarrow>
     ((error + unit) \<times> world) option" where
  "run_datasets env cfg run_id mode [] w = Some (Inr (), w)"
| "run_datasets env cfg run_id mode (ds # rest) w =
     (case map_of cfg ds of
        None \<Rightarrow> run_datasets env cfg run_id mode rest w
      | Some config \<Rightarrow>
          (case read_watermark (r2 w) (state_path ds) of
             Inl e \<Rightarrow> Some (Inl e, w)
           | Inr watermark \<Rightarrow>
               (case process_dataset env run_id mode ds config watermark w of
                  None \<Rightarrow> None
                | Some (Inl e, w1) \<Rightarrow> Some (Inl e, w1)
                | Some (Inr _, w1) \<Rightarrow>
                    (case write_bytes env (state_path ds)
                            (State (Some (isoformat (utcnow env (tick w1)))) run_id)
                            (w1\<lparr>tick := Suc (tick w1)\<rparr>) of
                       (Inl e, w2) \<Rightarrow> Some (Inl e, w2)
                     | (Inr _, w2) \<Rightarrow> run_datasets env cfg run_id mode rest w2))))"

text \<open>Lines 211 to 253. Only the load of the curated table is inside the \<^verbatim>\<open>try\<close>.\<close>

definition calculate_insights ::
  "env \<Rightarrow> string \<Rightarrow> string list \<Rightarrow> world \<Rightarrow> (error + unit) \<times> world" where
  "calculate_insights env run_id target_datasets w =
     (let curated_path = ''curated/contractors/parquet/data.parquet'' in
      if \<not> exists_file (r2 w) curated_path then (Inr (), w)
      else
        (case read_parquet (r2 w) curated_path of
           Inl e \<Rightarrow> (Inr (), w)
         | Inr df \<Rightarrow>
             (case write_bytes env (''insights/'' @ run_id @ ''/summaries/velocity.json'')
                     (Velocity (length df)) w of
                (Inl e, w1) \<Rightarrow> (Inl e, w1)
              | (Inr _, w1) \<Rightarrow>
                  (let catalog = Catalog target_datasets (isoformat (utcnow env (tick w1))) in
                   case write_bytes env (''insights/'' @ run_id @ ''/catalog.json'') catalog
                          (w1\<lparr>tick := Suc (tick w1)\<rparr>) of
                     (Inl e, w2) \<Rightarrow> (Inl e, w2)
                   | (Inr _, w2) \<Rightarrow>
                       write_bytes env ''insights/latest/catalog.json'' catalog w2))))"

definition run ::
  "env \<Rightarrow> (string \<times> dataset_config) list \<Rightarrow> string \<Rightarrow> string \<Rightarrow> string list \<Rightarrow> world \<Rightarrow>
     ((error + unit) \<times> world) option" where
  "run env cfg run_id mode target_datasets w =
     (case run_datasets env cfg run_id mode target_datasets w of
        None \<Rightarrow> None
      | Some (Inl e, w1) \<Rightarrow> Some (Inl e, w1)
      | Some (Inr _, w1) \<Rightarrow> Some (calculate_insights env run_id target_datasets w1))"

text \<open>The table of the source has one entry; its extractor is a parameter here.\<close>

definition DATASET_CONFIG :: "(row list \<Rightarrow> error + frame) \<Rightarrow> (string \<times> dataset_config) list" where
  "DATASET_CONFIG run_contractor =
     [(''contractors'',
       \<lparr>cfg_soda_id = ''3pee-9qhc'', cfg_extractor = run_contractor,
        cfg_pk = Some ''contractor_id'', cfg_date_field = '':updated_at''\<rparr>)]"

section \<open>Scenarios\<close>

text \<open>
  Concrete environments and buckets for the closed theorems below. The extractor of the
  scenarios passes the fetched rows through unchanged (\<open>Inr\<close>); the clock always reads
  10:00 on 10 January 2025; the interpreter reads the documented format.
\<close>

definition sample_clock :: datetime where
  "sample_clock =
     \<lparr>year = 2025, month = 1, day = 10, hour = 10, minute = 0, second = 0,
      microsecond = 0, tzoffset = None\<rparr>"

definition contractors_config :: dataset_config where
  "contractors_config =
     \<lparr>cfg_soda_id = ''3pee-9qhc'', cfg_extractor = Inr,
      cfg_pk = Some ''contractor_id'', cfg_date_field = '':updated_at''\<rparr>"

definition committed_row :: row where
  "committed_row = [(''contractor_id'', VStr ''1''), (''company_name'', VStr ''Acme'')]"

definition fetched_row :: row where
  "fetched_row = [(''contractor_id'', VStr ''2''), (''company_name'', VStr ''Bolt'')]"

text \<open>A bucket that holds a committed curated table of one row.\<close>

definition committed_world :: world where
  "committed_world =
     \<lparr>r2 = [(''curated/contractors/parquet/data.parquet'', Whole (Parquet [committed_row]))],
      tick = 0\<rparr>"

text \<open>The source answers every request with one row; the fifth interaction of the run,
  which is the write of the curated table, fails part-way.\<close>

definition torn_write_env :: env where
  "torn_write_env =
     \<lparr>get_json = (\<lambda>t sid p. Inr [fetched_row]),
      utcnow = (\<lambda>t. sample_clock),
      write_fails = (\<lambda>t. t = 4),
      iso_reader = documented_format\<rparr>"

text \<open>The same, with the failure at the second interaction: the write of the raw
  snapshot, which goes through \<open>write_bytes\<close>.\<close>

definition torn_raw_env :: env where
  "torn_raw_env =
     \<lparr>get_json = (\<lambda>t sid p. Inr [fetched_row]),
      utcnow = (\<lambda>t. sample_clock),
      write_fails = (\<lambda>t. t = 1),
      iso_reader = documented_format\<rparr>"

text \<open>The first request to the source fails; every later one returns an empty page.\<close>

definition flaky_env :: env where
  "flaky_env =
     \<lparr>get_json = (\<lambda>t sid p. if t = 0 then Inl HTTPError else Inr []),
      utcnow = (\<lambda>t. sample_clock),
      write_fails = (\<lambda>t. False),
      iso_reader = documented_format\<rparr>"

text \<open>The first request to the source returns an empty page; every later one fails.\<close>

definition late_failure_env :: env where
  "late_failure_env =
     \<lparr>get_json = (\<lambda>t sid p. if t = 0 then Inr [] else Inl HTTPError),
      utcnow = (\<lambda>t. sample_clock),
      write_fails = (\<lambda>t. False),
      iso_reader = documented_format\<rparr>"

definition empty_world :: world where
  "empty_world = \<lparr>r2 = [], tick = 0\<rparr>"

text \<open>A source that honours the filter: two rows without a \<^verbatim>\<open>$where\<close> clause, none with
  one.\<close>

definition filtering_env :: env where
  "filtering_env =
     \<lparr>get_json = (\<lambda>t sid p. if where_clause p = None then Inr [committed_row, fetched_row]
                                 else Inr []),
      utcnow = (\<lambda>t. sample_clock),
      write_fails = (\<lambda>t. False),
      iso_reader = documented_format\<rparr>"

text \<open>A stored state whose watermark is not a timestamp.\<close>

definition bad_watermark_world :: world where
  "bad_watermark_world =
     \<lparr>r2 = [(''curated/contractors/_state.json'', Whole (State (Some ''not-a-timestamp'') ''run0''))],
      tick = 0\<rparr>"

text \<open>A source with one full page of 2000 rows and nothing after it.\<close>

definition one_full_page_env :: env where
  "one_full_page_env =
     \<lparr>get_json = (\<lambda>t sid p. if offset p = 0 then Inr (replicate 2000 fetched_row) else Inr []),
      utcnow = (\<lambda>t. sample_clock),
      write_fails = (\<lambda>t. False),
      iso_reader = documented_format\<rparr>"

section \<open>Properties of the merge\<close>


lemma ddl_subseq: "subseq (drop_duplicates_last pk xs) xs"
  by (induction xs) auto

lemma ddl_set_subset: "set (drop_duplicates_last pk xs) \<subseteq> set xs"
  by (induction xs) auto

lemma ddl_keys: "(\<lambda>r. cell r pk) ` set (drop_duplicates_last pk xs) = (\<lambda>r. cell r pk) ` set xs"
  by (induction xs) auto

lemma ddl_distinct: "distinct (map (\<lambda>r. cell r pk) (drop_duplicates_last pk xs))"
proof (induction xs)
  case Nil
  show ?case by simp
next
  case (Cons r rs)
  have "cell r pk \<notin> (\<lambda>r. cell r pk) ` set rs \<Longrightarrow>
        cell r pk \<notin> (\<lambda>r. cell r pk) ` set (drop_duplicates_last pk rs)"
    by (simp add: ddl_keys)
  with Cons show ?case by auto
qed

lemma ddl_filter:
  "filter (\<lambda>r. cell r pk = k) (drop_duplicates_last pk xs) =
     (if \<exists>r \<in> set xs. cell r pk = k then [last (filter (\<lambda>r. cell r pk = k) xs)] else [])"
proof (induction xs)
  case Nil
  show ?case by simp
next
  case (Cons r rs)
  show ?case
  proof (cases "cell r pk \<in> set (map (\<lambda>r'. cell r' pk) rs)")
    case True
    then have "filter (\<lambda>r. cell r pk = k) rs \<noteq> []" if "cell r pk = k"
      using that by (auto simp: filter_empty_conv)
    with True Cons show ?thesis by auto
  next
    case False
    then have "filter (\<lambda>r. cell r pk = k) rs = []" if "cell r pk = k"
      using that by (force simp: filter_empty_conv image_iff)
    with False Cons show ?thesis by auto
  qed
qed

lemma sorted_last_max:
  assumes "sorted (map f ys)" and "y \<in> set ys"
  shows "f y \<le> f (last ys)"
proof -
  from assms(2) have ne: "ys \<noteq> []" by auto
  then have "ys = butlast ys @ [last ys]" by simp
  then have "sorted (map f (butlast ys @ [last ys]))" using assms(1) by simp
  then have "\<forall>x \<in> set (butlast ys). f x \<le> f (last ys)"
    by (simp add: sorted_append)
  moreover from assms(2) ne have "y \<in> set (butlast ys) \<or> y = last ys"
    by (metis Un_iff append_butlast_last_id empty_iff empty_set set_ConsD set_append)
  ultimately show ?thesis by auto
qed

text \<open>After any arrangement of the rows that is sorted by a key, stable or not, the row
  kept for a primary key has the greatest sort key among the rows of that primary key.\<close>

lemma ddl_sorted_latest:
  assumes srt: "sorted (map f xs)"
    and r: "r \<in> set (drop_duplicates_last pk xs)"
    and r': "r' \<in> set xs" and same: "cell r' pk = cell r pk"
  shows "f r' \<le> f r"
proof -
  let ?P = "\<lambda>x. cell x pk = cell r pk"
  from r have "r \<in> set (filter ?P (drop_duplicates_last pk xs))" by simp
  moreover have "\<exists>x \<in> set xs. cell x pk = cell r pk" using r' same by blast
  ultimately have "r = last (filter ?P xs)" by (simp add: ddl_filter)
  moreover have "sorted (map f (filter ?P xs))" using srt by (rule sorted_filter)
  moreover have "r' \<in> set (filter ?P xs)" using r' same by simp
  ultimately show ?thesis using sorted_last_max by metis
qed

lemma comparable_column_kind:
  assumes "comparable_column c df" "r \<in> set df" "r' \<in> set df"
    "cell r c = Some a" "cell r' c = Some b"
  shows "val_kind a = val_kind b"
proof -
  let ?ks = "column_kinds c df"
  have "a \<in> set (List.map_filter (\<lambda>r. cell r c) df)" "b \<in> set (List.map_filter (\<lambda>r. cell r c) df)"
    using assms by (force simp: List.map_filter_def image_iff)+
  then have a: "val_kind a \<in> set ?ks" and b: "val_kind b \<in> set ?ks"
    by (auto simp: column_kinds_def)
  have "distinct ?ks" by (simp add: column_kinds_def)
  moreover have "length ?ks \<le> 1" using assms(1) by (simp add: comparable_column_def)
  ultimately have "card (set ?ks) \<le> 1" by (simp add: distinct_card)
  with a b show ?thesis
    by (metis List.finite_set card_le_Suc0_iff_eq One_nat_def)
qed

lemma order_key_val_le:
  assumes "cell r' c = Some a" "cell r c = Some b" "val_kind a = val_kind b"
  shows "order_key c r' \<le> order_key c r \<longleftrightarrow> val_le a b"
  using assms by (cases a; cases b) (auto simp: order_key_def)

lemma has_column_iff: "has_column c df \<longleftrightarrow> (\<exists>r \<in> set df. cell r c \<noteq> None)"
  by (simp add: has_column_def list_ex_iff)

lemma empty_frame_no_cell: "empty_frame df \<Longrightarrow> r \<in> set df \<Longrightarrow> cell r c = None"
  by (auto simp: empty_frame_def list_all_iff cell_def)

lemma concat_frames_carry:
  assumes "\<forall>r \<in> set (df_existing @ df_delta). cell r pk \<noteq> None"
  shows "concat_frames df_existing df_delta = df_existing @ df_delta"
proof (cases "empty_frame df_existing")
  case True
  have "df_existing = []"
  proof (cases df_existing)
    case Nil then show ?thesis .
  next
    case (Cons r rs)
    then have "cell r pk = None" using True empty_frame_no_cell by simp
    with assms Cons show ?thesis by simp
  qed
  with True show ?thesis by (simp add: concat_frames_def)
next
  case False
  then show ?thesis by (simp add: concat_frames_def)
qed

lemma merge_frames_sorted:
  assumes "has_column pk (concat_frames e d)" "has_column updated_at (concat_frames e d)"
    "comparable_column updated_at (concat_frames e d)"
  shows "merge_frames pk e d =
    Inr (drop_duplicates_last pk (sort_key (order_key updated_at) (concat_frames e d)))"
  using assms by (simp add: merge_frames_def sort_values_def)

lemma merge_frames_Inr_comparable:
  assumes "merge_frames pk e d = Inr out" "has_column pk (concat_frames e d)"
     "has_column updated_at (concat_frames e d)"
  shows "comparable_column updated_at (concat_frames e d)"
proof (rule ccontr)
  assume "\<not> comparable_column updated_at (concat_frames e d)"
  with assms(2,3) have "merge_frames pk e d = Inl TypeError"
    by (simp add: merge_frames_def sort_values_def)
  with assms(1) show False by simp
qed

text \<open>
  Claim C3. When every row of the existing table and of the delta carries the primary key
  and the update timestamp, the merge returns a table whenever the timestamps can be
  compared with one another, and every table it returns has at most one row per
  primary-key value, consists of input rows, keeps every key, and holds for each key a
  row whose timestamp is at least that of every input row with the same key. The
  existing row \<open>{pk=1, ts=10, v=a}\<close> merged with the delta row \<open>{pk=1, ts=12, v=b}\<close> gives
  the one row with \<open>v=b\<close>; the timestamp is the field \<^verbatim>\<open>:updated_at\<close>, the only one the code
  sorts by.
\<close>

theorem merge_latest_per_key:
  assumes carry: "\<forall>r \<in> set (df_existing @ df_delta).
                    cell r pk \<noteq> None \<and> cell r updated_at \<noteq> None"
  shows "(comparable_column updated_at (df_existing @ df_delta) \<longrightarrow>
            (\<exists>out. merge_frames pk df_existing df_delta = Inr out))
       \<and> (\<forall>out. merge_frames pk df_existing df_delta = Inr out \<longrightarrow>
            distinct (map (\<lambda>r. cell r pk) out)
          \<and> set out \<subseteq> set (df_existing @ df_delta)
          \<and> (\<forall>r' \<in> set (df_existing @ df_delta). \<exists>r \<in> set out. cell r pk = cell r' pk)
          \<and> (\<forall>r \<in> set out. \<forall>r' \<in> set (df_existing @ df_delta).
                 cell r' pk = cell r pk \<longrightarrow> ts_le r' r))
       \<and> merge_frames ''pk''
            [[(''pk'', VInt 1), ('':updated_at'', VInt 10), (''v'', VStr ''a'')]]
            [[(''pk'', VInt 1), ('':updated_at'', VInt 12), (''v'', VStr ''b'')]]
          = Inr [[(''pk'', VInt 1), ('':updated_at'', VInt 12), (''v'', VStr ''b'')]]"
proof (intro conjI allI impI ballI)
  let ?all = "df_existing @ df_delta"
  let ?key = "order_key updated_at"
  have fin: "concat_frames df_existing df_delta = ?all"
    using carry by (intro concat_frames_carry) blast
  show "\<exists>out. merge_frames pk df_existing df_delta = Inr out"
    if "comparable_column updated_at ?all"
    using that fin by (simp add: merge_frames_def sort_values_def Let_def)
  show "merge_frames ''pk''
            [[(''pk'', VInt 1), ('':updated_at'', VInt 10), (''v'', VStr ''a'')]]
            [[(''pk'', VInt 1), ('':updated_at'', VInt 12), (''v'', VStr ''b'')]]
          = Inr [[(''pk'', VInt 1), ('':updated_at'', VInt 12), (''v'', VStr ''b'')]]"
    by (simp add: merge_frames_def concat_frames_def empty_frame_def has_column_def cell_def
        updated_at_def sort_values_def comparable_column_def column_kinds_def order_key_def
        List.map_filter_simps)
  fix out
  assume res: "merge_frames pk df_existing df_delta = Inr out"
  have shape: "out = ?all \<and> ?all = [] \<or>
      (comparable_column updated_at ?all \<and> out = drop_duplicates_last pk (sort_key ?key ?all))"
  proof (cases "?all = []")
    case True
    with res fin show ?thesis by (simp add: merge_frames_def has_column_def)
  next
    case False
    then obtain r where "r \<in> set ?all" by (cases ?all) auto
    with carry have pkc: "has_column pk ?all" and tsc: "has_column updated_at ?all"
      by (auto simp: has_column_iff)
    with res fin have "comparable_column updated_at ?all"
      using merge_frames_Inr_comparable by metis
    with pkc tsc fin res show ?thesis using merge_frames_sorted by fastforce
  qed
  show "distinct (map (\<lambda>r. cell r pk) out)"
    using shape by (auto simp: ddl_distinct)
  show "set out \<subseteq> set ?all"
    using shape ddl_set_subset [of pk "sort_key ?key ?all"] by auto
  show "\<exists>r \<in> set out. cell r pk = cell r' pk" if "r' \<in> set ?all" for r'
  proof -
    from that have ne: "?all \<noteq> []" by auto
    from that have "cell r' pk \<in> (\<lambda>r. cell r pk) ` set (sort_key ?key ?all)" by simp
    moreover from shape ne
    have "out = drop_duplicates_last pk (sort_key ?key ?all)" by blast
    ultimately have "cell r' pk \<in> (\<lambda>r. cell r pk) ` set out"
      by (simp only: ddl_keys)
    then show ?thesis by auto
  qed
  show "ts_le r' r" if r: "r \<in> set out" and r': "r' \<in> set ?all"
    and same: "cell r' pk = cell r pk" for r r'
  proof -
    from r' have ne: "?all \<noteq> []" by auto
    with shape have cmp: "comparable_column updated_at ?all"
      and out: "out = drop_duplicates_last pk (sort_key ?key ?all)" by auto
    have "?key r' \<le> ?key r"
    proof (rule ddl_sorted_latest)
      show "sorted (map ?key (sort_key ?key ?all))" by (rule sorted_sort_key)
      show "r \<in> set (drop_duplicates_last pk (sort_key ?key ?all))" using r out by simp
      show "r' \<in> set (sort_key ?key ?all)" using r' by simp
      show "cell r' pk = cell r pk" by (rule same)
    qed
    moreover have rin: "r \<in> set ?all" using r out ddl_set_subset [of pk "sort_key ?key ?all"] by auto
    moreover obtain a b where a: "cell r' updated_at = Some a" and b: "cell r updated_at = Some b"
      using carry r' rin by (metis not_None_eq)
    moreover have "val_kind a = val_kind b"
      using comparable_column_kind [OF cmp r' rin a b] .
    ultimately have "val_le a b" using order_key_val_le by blast
    with a b show ?thesis by (simp add: ts_le_def)
  qed
qed

theorem merge_latest_per_key_witness:
  "list_all (\<lambda>r. cell r ''contractor_id'' \<noteq> None \<and> cell r updated_at \<noteq> None)
      ([[(''contractor_id'', VStr ''7''), ('':updated_at'', VStr ''2025-01-10T10:00:00'')]]
       @ [[(''contractor_id'', VStr ''7''), ('':updated_at'', VStr ''2025-01-11T09:30:00'')]])
   \<and> comparable_column updated_at
        ([[(''contractor_id'', VStr ''7''), ('':updated_at'', VStr ''2025-01-10T10:00:00'')]]
         @ [[(''contractor_id'', VStr ''7''), ('':updated_at'', VStr ''2025-01-11T09:30:00'')]])
   \<and> merge_frames ''contractor_id''
        [[(''contractor_id'', VStr ''7''), ('':updated_at'', VStr ''2025-01-10T10:00:00'')]]
        [[(''contractor_id'', VStr ''7''), ('':updated_at'', VStr ''2025-01-11T09:30:00'')]]
       = Inr [[(''contractor_id'', VStr ''7''), ('':updated_at'', VStr ''2025-01-11T09:30:00'')]]
   \<and> ts_le [(''contractor_id'', VStr ''7''), ('':updated_at'', VStr ''2025-01-10T10:00:00'')]
            [(''contractor_id'', VStr ''7''), ('':updated_at'', VStr ''2025-01-11T09:30:00'')]"
proof -
  let ?old = "[(''contractor_id'', VStr ''7''), ('':updated_at'', VStr ''2025-01-10T10:00:00'')]"
  let ?new = "[(''contractor_id'', VStr ''7''), ('':updated_at'', VStr ''2025-01-11T09:30:00'')]"
  have carry: "\<forall>r \<in> set ([?old] @ [?new]).
                 cell r ''contractor_id'' \<noteq> None \<and> cell r updated_at \<noteq> None"
    by code_simp
  have cmp: "comparable_column updated_at ([?old] @ [?new])"
    by code_simp
  have res: "merge_frames ''contractor_id'' [?old] [?new] = Inr [?new]"
    by code_simp
  from merge_latest_per_key [OF carry] res
  have "\<forall>r \<in> set [?new]. \<forall>r' \<in> set ([?old] @ [?new]).
          cell r' ''contractor_id'' = cell r ''contractor_id'' \<longrightarrow> ts_le r' r"
    by blast
  moreover have "cell ?old ''contractor_id'' = cell ?new ''contractor_id''"
    by code_simp
  ultimately have "ts_le ?old ?new" by simp
  moreover have "list_all (\<lambda>r. cell r ''contractor_id'' \<noteq> None \<and> cell r updated_at \<noteq> None)
      ([?old] @ [?new])"
    using carry by (simp only: list_all_iff)
  ultimately show ?thesis using cmp res by blast
qed

lemma subseq_concat_frames: "subseq (concat_frames e d) (e @ d)"
  by (simp add: concat_frames_def list_emb_append2)

lemma concat_frames_filter_key:
  "filter (\<lambda>r. cell r pk = Some k) (concat_frames e d) = filter (\<lambda>r. cell r pk = Some k) (e @ d)"
proof (cases "empty_frame e")
  case True
  then have "filter (\<lambda>r. cell r pk = Some k) e = []"
    using empty_frame_no_cell [OF True, of _ pk] by (auto simp: filter_empty_conv)
  with True show ?thesis by (simp add: concat_frames_def)
next
  case False
  then show ?thesis by (simp add: concat_frames_def)
qed

lemma merge_frames_unsorted:
  assumes "\<not> has_column updated_at (concat_frames e d)"
  shows "merge_frames pk e d =
    Inr (if has_column pk (concat_frames e d) then drop_duplicates_last pk (concat_frames e d)
         else concat_frames e d)"
  using assms by (simp add: merge_frames_def)

lemma has_column_concat_frames:
  "has_column c (concat_frames e d) \<Longrightarrow> has_column c (e @ d)"
  by (auto simp: has_column_iff concat_frames_def split: if_splits)

text \<open>
  Claim C4. When no row of the concatenated input carries the update timestamp, the merge
  returns a subsequence of the concatenation (existing rows first, then the delta) in
  which each primary-key value is held by the last row that has it in the concatenation;
  for a key that occurs in the delta this is the last delta row with that key, whatever
  the existing rows are.
\<close>

theorem merge_without_timestamp_delta_wins:
  assumes no_ts: "\<not> has_column updated_at (df_existing @ df_delta)"
  shows "\<exists>out. merge_frames pk df_existing df_delta = Inr out
       \<and> subseq out (df_existing @ df_delta)
       \<and> (\<forall>k. (\<exists>r \<in> set (df_existing @ df_delta). cell r pk = Some k) \<longrightarrow>
              filter (\<lambda>r. cell r pk = Some k) out =
                [last (filter (\<lambda>r. cell r pk = Some k) (df_existing @ df_delta))])
       \<and> (\<forall>k. (\<exists>d \<in> set df_delta. cell d pk = Some k) \<longrightarrow>
              filter (\<lambda>r. cell r pk = Some k) out =
                [last (filter (\<lambda>r. cell r pk = Some k) df_delta)])"
proof -
  let ?fin = "concat_frames df_existing df_delta"
  let ?all = "df_existing @ df_delta"
  define out where "out = (if has_column pk ?fin then drop_duplicates_last pk ?fin else ?fin)"
  from no_ts have "\<not> has_column updated_at ?fin" using has_column_concat_frames by blast
  then have res: "merge_frames pk df_existing df_delta = Inr out"
    by (simp add: merge_frames_unsorted out_def)
  have "subseq out ?fin" by (simp add: out_def ddl_subseq)
  then have sub: "subseq out ?all" using subseq_concat_frames subseq_order.order_trans by blast
  have last_all: "filter (\<lambda>r. cell r pk = Some k) out = [last (filter (\<lambda>r. cell r pk = Some k) ?all)]"
    if "\<exists>r \<in> set ?all. cell r pk = Some k" for k
  proof -
    from that have ne: "filter (\<lambda>r. cell r pk = Some k) ?all \<noteq> []"
      by (simp only: filter_empty_conv) blast
    have "filter (\<lambda>r. cell r pk = Some k) ?fin = filter (\<lambda>r. cell r pk = Some k) ?all"
      by (rule concat_frames_filter_key)
    with ne have "filter (\<lambda>r. cell r pk = Some k) ?fin \<noteq> []" by simp
    then obtain r where r: "r \<in> set ?fin" "cell r pk = Some k"
      by (auto simp: filter_empty_conv)
    then have col: "has_column pk ?fin" by (auto simp: has_column_iff)
    then have "filter (\<lambda>r. cell r pk = Some k) out = [last (filter (\<lambda>r. cell r pk = Some k) ?fin)]"
      using r by (auto simp: out_def ddl_filter)
    then show ?thesis by (simp only: concat_frames_filter_key)
  qed
  have last_delta: "filter (\<lambda>r. cell r pk = Some k) out = [last (filter (\<lambda>r. cell r pk = Some k) df_delta)]"
    if "\<exists>d \<in> set df_delta. cell d pk = Some k" for k
  proof -
    from that have ne: "filter (\<lambda>r. cell r pk = Some k) df_delta \<noteq> []"
      by (simp only: filter_empty_conv) blast
    from that have "\<exists>r \<in> set ?all. cell r pk = Some k" by auto
    then have "filter (\<lambda>r. cell r pk = Some k) out = [last (filter (\<lambda>r. cell r pk = Some k) ?all)]"
      by (rule last_all)
    with ne show ?thesis by simp
  qed
  from res sub last_all last_delta show ?thesis by blast
qed

text \<open>
  Claim C5 as stated fails: the existing table has a row with the primary key, the delta
  has two rows without it, and the first of the two is dropped by the merge.
\<close>

theorem merge_drops_rows_without_key:
  "cell [(''v'', VStr ''a'')] ''pk'' = None \<and>
   merge_frames ''pk'' [[(''pk'', VInt 1)]] [[(''v'', VStr ''a'')], [(''v'', VStr ''b'')]]
     = Inr [[(''pk'', VInt 1)], [(''v'', VStr ''b'')]]"
  by (simp add: merge_frames_def concat_frames_def empty_frame_def has_column_def cell_def
        updated_at_def)

lemma ddl_filter_missing:
  assumes "r \<in> set xs" "cell r pk = None"
  shows "\<exists>r' \<in> set xs. cell r' pk = None \<and>
           filter (\<lambda>r. cell r pk = None) (drop_duplicates_last pk xs) = [r']"
proof -
  let ?P = "\<lambda>r. cell r pk = None"
  from assms have ne: "filter ?P xs \<noteq> []" by (auto simp: filter_empty_conv)
  then have "last (filter ?P xs) \<in> set (filter ?P xs)" by (rule last_in_set)
  moreover have "filter ?P (drop_duplicates_last pk xs) = [last (filter ?P xs)]"
    using assms by (auto simp: ddl_filter)
  ultimately show ?thesis by auto
qed

text \<open>
  Claim C5, amended. If no row of the concatenated frame carries the primary key, the
  merge returns the frame as it is. If some row carries it, the rows without the key are
  deduplicated like the rows of one key: exactly one of them is in the result.
\<close>

theorem merge_rows_without_key:
  "(\<not> has_column pk (concat_frames df_existing df_delta) \<longrightarrow>
      merge_frames pk df_existing df_delta = Inr (concat_frames df_existing df_delta))
   \<and> (has_column pk (concat_frames df_existing df_delta) \<longrightarrow>
        (\<forall>out. merge_frames pk df_existing df_delta = Inr out \<longrightarrow>
           (\<forall>r \<in> set (concat_frames df_existing df_delta). cell r pk = None \<longrightarrow>
              (\<exists>r' \<in> set (concat_frames df_existing df_delta). cell r' pk = None \<and>
                 filter (\<lambda>r. cell r pk = None) out = [r']))))"
proof (intro conjI impI allI ballI)
  let ?fin = "concat_frames df_existing df_delta"
  show "merge_frames pk df_existing df_delta = Inr ?fin" if "\<not> has_column pk ?fin"
    using that by (simp add: merge_frames_def)
  fix out r
  assume col: "has_column pk ?fin" and res: "merge_frames pk df_existing df_delta = Inr out"
    and r: "r \<in> set ?fin" "cell r pk = None"
  have "\<exists>xs. set xs = set ?fin \<and> out = drop_duplicates_last pk xs"
  proof (cases "has_column updated_at ?fin")
    case True
    with res col have "comparable_column updated_at ?fin"
      using merge_frames_Inr_comparable by blast
    with col True res
    have "out = drop_duplicates_last pk (sort_key (order_key updated_at) ?fin)"
      by (simp add: merge_frames_sorted)
    moreover have "set (sort_key (order_key updated_at) ?fin) = set ?fin" by simp
    ultimately show ?thesis by blast
  next
    case False
    with col res have "out = drop_duplicates_last pk ?fin"
      by (simp add: merge_frames_unsorted)
    then show ?thesis by blast
  qed
  then obtain xs where xs: "set xs = set ?fin" "out = drop_duplicates_last pk xs" by blast
  with r have "\<exists>r' \<in> set xs. cell r' pk = None \<and>
           filter (\<lambda>r. cell r pk = None) (drop_duplicates_last pk xs) = [r']"
    by (intro ddl_filter_missing [of r]) auto
  with xs show "\<exists>r' \<in> set ?fin. cell r' pk = None \<and> filter (\<lambda>r. cell r pk = None) out = [r']"
    by simp
qed

theorem merge_without_timestamp_delta_wins_witness:
  "\<not> has_column updated_at
        ([[(''contractor_id'', VStr ''7''), (''v'', VStr ''old'')]]
         @ [[(''contractor_id'', VStr ''7''), (''v'', VStr ''new'')]])
   \<and> (\<exists>d \<in> set [[(''contractor_id'', VStr ''7''), (''v'', VStr ''new'')]].
         cell d ''contractor_id'' = Some (VStr ''7''))
   \<and> (\<exists>out. merge_frames ''contractor_id''
          [[(''contractor_id'', VStr ''7''), (''v'', VStr ''old'')]]
          [[(''contractor_id'', VStr ''7''), (''v'', VStr ''new'')]] = Inr out
        \<and> filter (\<lambda>r. cell r ''contractor_id'' = Some (VStr ''7'')) out
            = [[(''contractor_id'', VStr ''7''), (''v'', VStr ''new'')]])"
proof -
  let ?old = "[(''contractor_id'', VStr ''7''), (''v'', VStr ''old'')]"
  let ?new = "[(''contractor_id'', VStr ''7''), (''v'', VStr ''new'')]"
  have no_ts: "\<not> has_column updated_at ([?old] @ [?new])"
    by code_simp
  have in_delta: "\<exists>d \<in> set [?new]. cell d ''contractor_id'' = Some (VStr ''7'')"
    by code_simp
  have last_delta: "last (filter (\<lambda>r. cell r ''contractor_id'' = Some (VStr ''7'')) [?new]) = ?new"
    by code_simp
  from merge_without_timestamp_delta_wins [OF no_ts, of "''contractor_id''"] in_delta
  have "\<exists>out. merge_frames ''contractor_id'' [?old] [?new] = Inr out
        \<and> filter (\<lambda>r. cell r ''contractor_id'' = Some (VStr ''7'')) out
            = [last (filter (\<lambda>r. cell r ''contractor_id'' = Some (VStr ''7'')) [?new])]"
    by blast
  with last_delta no_ts in_delta show ?thesis by simp
qed

theorem merge_rows_without_key_witness:
  "merge_frames ''pk'' [] [[(''v'', VStr ''a'')], [(''v'', VStr ''b'')], [(''pk'', VInt 1)]]
     = Inr [[(''v'', VStr ''b'')], [(''pk'', VInt 1)]]
   \<and> has_column ''pk'' (concat_frames [] [[(''v'', VStr ''a'')], [(''v'', VStr ''b'')], [(''pk'', VInt 1)]])
   \<and> [(''v'', VStr ''a'')] \<in> set (concat_frames [] [[(''v'', VStr ''a'')], [(''v'', VStr ''b'')], [(''pk'', VInt 1)]])
   \<and> cell [(''v'', VStr ''a'')] ''pk'' = None
   \<and> (\<exists>r'. filter (\<lambda>r. cell r ''pk'' = None) [[(''v'', VStr ''b'')], [(''pk'', VInt 1)]] = [r'])
   \<and> \<not> has_column ''pk'' (concat_frames [] [[(''v'', VStr ''a'')], [(''v'', VStr ''b'')]])
   \<and> merge_frames ''pk'' [] [[(''v'', VStr ''a'')], [(''v'', VStr ''b'')]]
     = Inr (concat_frames [] [[(''v'', VStr ''a'')], [(''v'', VStr ''b'')]])"
proof -
  let ?delta = "[[(''v'', VStr ''a'')], [(''v'', VStr ''b'')], [(''pk'', VInt 1)]]"
  let ?out = "[[(''v'', VStr ''b'')], [(''pk'', VInt 1)]]"
  let ?keyless = "[[(''v'', VStr ''a'')], [(''v'', VStr ''b'')]]"
  have res: "merge_frames ''pk'' [] ?delta = Inr ?out"
    by code_simp
  have col: "has_column ''pk'' (concat_frames [] ?delta)"
    by code_simp
  have mem: "[(''v'', VStr ''a'')] \<in> set (concat_frames [] ?delta)"
    by code_simp
  have nokey: "cell [(''v'', VStr ''a'')] ''pk'' = None"
    by code_simp
  have nocol: "\<not> has_column ''pk'' (concat_frames [] ?keyless)"
    by code_simp
  from merge_rows_without_key [of "''pk''" "[]" ?delta] res col mem nokey
  have one: "\<exists>r'. filter (\<lambda>r. cell r ''pk'' = None) ?out = [r']"
    by blast
  from merge_rows_without_key [of "''pk''" "[]" ?keyless] nocol
  have "merge_frames ''pk'' [] ?keyless = Inr (concat_frames [] ?keyless)"
    by blast
  with one res col mem nokey nocol show ?thesis by blast
qed

section \<open>Properties of the timestamps\<close>

lemma days_before_month_Suc:
  "1 \<le> m \<Longrightarrow> days_before_month y (Suc m) = days_before_month y m + days_in_month y m"
  by (simp add: days_before_month_def)

lemma days_before_month_13:
  "days_before_month y 13 = (if is_leap y then 366 else 365)"
proof -
  have "[1..<13] = [1,2,3,4,5,6,7,8,9,10,11,12::nat]" by (simp add: upt_rec)
  then show ?thesis by (simp add: days_before_month_def days_in_month_def)
qed

lemma days_before_year_Suc:
  assumes "1 \<le> y"
  shows "days_before_year (Suc y) = days_before_year y + (if is_leap y then 366 else 365)"
proof -
  from assms obtain n where y: "y = Suc n" by (cases y) auto
  have d4: "Suc n div 4 = (if Suc n mod 4 = 0 then Suc (n div 4) else n div 4)"
    by (rule div_Suc)
  have d100: "Suc n div 100 = (if Suc n mod 100 = 0 then Suc (n div 100) else n div 100)"
    by (rule div_Suc)
  have d400: "Suc n div 400 = (if Suc n mod 400 = 0 then Suc (n div 400) else n div 400)"
    by (rule div_Suc)
  have le: "n div 100 \<le> n div 4" by (rule div_le_mono2) simp_all
  have m1: "Suc n mod 4 = 0" if "Suc n mod 100 = 0"
  proof -
    from that have "100 dvd Suc n" by (simp only: mod_eq_0_iff_dvd)
    moreover have "(4::nat) dvd 100" by simp
    ultimately have "4 dvd Suc n" by (rule dvd_trans [rotated])
    then show ?thesis by (simp only: mod_eq_0_iff_dvd)
  qed
  have m2: "Suc n mod 100 = 0" if "Suc n mod 400 = 0"
  proof -
    from that have "400 dvd Suc n" by (simp only: mod_eq_0_iff_dvd)
    moreover have "(100::nat) dvd 400" by simp
    ultimately have "100 dvd Suc n" by (rule dvd_trans [rotated])
    then show ?thesis by (simp only: mod_eq_0_iff_dvd)
  qed
  define a b c where "a = n div 4" and "b = n div 100" and "c = n div 400"
  have le': "b \<le> a" using le by (simp add: a_def b_def)
  have A: "Suc n * 365 + Suc a - Suc b + Suc c = n * 365 + a - b + c + 366"
    and B: "Suc n * 365 + Suc a - Suc b + c = n * 365 + a - b + c + 365"
    and C: "Suc n * 365 + Suc a - b + c = n * 365 + a - b + c + 366"
    and D: "Suc n * 365 + a - b + c = n * 365 + a - b + c + 365"
    using le' by simp_all
  have lhs: "days_before_year (Suc y) = Suc n * 365 + Suc n div 4 - Suc n div 100 + Suc n div 400"
    by (simp add: days_before_year_def y)
  have rhs: "days_before_year y = n * 365 + a - b + c"
    by (simp add: days_before_year_def y a_def b_def c_def)
  have leap: "is_leap y \<longleftrightarrow> (Suc n mod 4 = 0 \<and> (Suc n mod 100 \<noteq> 0 \<or> Suc n mod 400 = 0))"
    by (simp add: is_leap_def y)
  show ?thesis
  proof (cases "Suc n mod 4 = 0")
    case c4: True
    then have e4: "Suc n div 4 = Suc a" using d4 by (simp add: a_def)
    show ?thesis
    proof (cases "Suc n mod 100 = 0")
      case c100: True
      then have e100: "Suc n div 100 = Suc b" using d100 by (simp add: b_def)
      show ?thesis
      proof (cases "Suc n mod 400 = 0")
        case True
        then have e400: "Suc n div 400 = Suc c" using d400 by (simp add: c_def)
        from c4 True have "is_leap y" by (simp add: leap)
        then show ?thesis by (simp only: lhs rhs e4 e100 e400 A if_True)
      next
        case False
        then have e400: "Suc n div 400 = c" using d400 by (simp add: c_def)
        from c100 False have "\<not> is_leap y" by (simp add: leap)
        then show ?thesis by (simp only: lhs rhs e4 e100 e400 B if_False)
      qed
    next
      case c100: False
      then have e100: "Suc n div 100 = b" using d100 by (simp add: b_def)
      from c100 m2 have c400: "Suc n mod 400 \<noteq> 0" by auto
      then have e400: "Suc n div 400 = c" using d400 by (simp add: c_def)
      from c4 c100 have "is_leap y" by (simp add: leap)
      then show ?thesis by (simp only: lhs rhs e4 e100 e400 C if_True)
    qed
  next
    case c4: False
    then have e4: "Suc n div 4 = a" using d4 by (simp add: a_def)
    from c4 m1 have c100: "Suc n mod 100 \<noteq> 0" by auto
    then have e100: "Suc n div 100 = b" using d100 by (simp add: b_def)
    from c100 m2 have c400: "Suc n mod 400 \<noteq> 0" by auto
    then have e400: "Suc n div 400 = c" using d400 by (simp add: c_def)
    from c4 have "\<not> is_leap y" by (simp add: leap)
    then show ?thesis by (simp only: lhs rhs e4 e100 e400 D if_False)
  qed
qed


lemma prev_day_ordinal:
  assumes v: "valid_date y m d" and p: "prev_day y m d = Some (y', m', d')"
  shows "Suc (toordinal y' m' d') = toordinal y m d \<and> valid_date y' m' d'"
proof (cases "1 < d")
  case True
  with p v show ?thesis by (auto simp: prev_day_def toordinal_def valid_date_def)
next
  case d1: False
  show ?thesis
  proof (cases "1 < m")
    case True
    with d1 p have eq: "y' = y" "m' = m - 1" "d' = days_in_month y (m - 1)"
      by (auto simp: prev_day_def)
    from True have "days_before_month y (Suc (m - 1)) = days_before_month y (m - 1) + days_in_month y (m - 1)"
      by (intro days_before_month_Suc) simp
    with True have "days_before_month y m = days_before_month y (m - 1) + days_in_month y (m - 1)"
      by simp
    moreover have "1 \<le> days_in_month y (m - 1)" by (simp add: days_in_month_def)
    ultimately show ?thesis using eq v d1 True
      by (auto simp: toordinal_def valid_date_def)
  next
    case m1: False
    with d1 p have y: "1 < y" and eq: "y' = y - 1" "m' = 12" "d' = 31"
      by (auto simp: prev_day_def split: if_splits)
    from v d1 m1 have md: "m = 1" "d = 1" by (auto simp: valid_date_def)
    have "days_before_month (y - 1) (Suc 12) = days_before_month (y - 1) 12 + days_in_month (y - 1) 12"
      by (intro days_before_month_Suc) simp
    then have a: "days_before_month (y - 1) 12 + 31 = (if is_leap (y - 1) then 366 else 365)"
      by (simp add: days_before_month_13 days_in_month_def)
    from y have "days_before_year (Suc (y - 1)) = days_before_year (y - 1) + (if is_leap (y - 1) then 366 else 365)"
      by (intro days_before_year_Suc) simp
    with y have b: "days_before_year y = days_before_year (y - 1) + (if is_leap (y - 1) then 366 else 365)"
      by simp
    have c: "days_before_month y 1 = 0" by (simp add: days_before_month_def)
    from a b c md eq y v show ?thesis
      by (auto simp: toordinal_def valid_date_def days_in_month_def)
  qed
qed

lemma wall_micros_fields:
  "wall_micros dt =
     (((int (toordinal (year dt) (month dt) (day dt)) * 24 + int (hour dt)) * 60
        + int (minute dt)) * 60 + int (second dt)) * 1000000 + int (microsecond dt)"
  by (simp add: wall_micros_def)

lemma minus_lag_micros:
  assumes v: "valid_datetime dt" and l: "minus_lag dt = Some dt_lag"
  shows "wall_micros dt_lag = wall_micros dt - 2 * 3600 * 1000000
         \<and> tzoffset dt_lag = tzoffset dt \<and> valid_datetime dt_lag"
proof (cases "2 \<le> hour dt")
  case True
  with l have eq: "dt_lag = dt\<lparr>hour := hour dt - 2\<rparr>"
    by (simp add: minus_lag_def SAFETY_LAG_HOURS_def)
  from True have h: "int (hour dt - 2) = int (hour dt) - 2"
    by (simp add: of_nat_diff)
  from v have "hour dt < 24" by (simp add: valid_datetime_def)
  then have lt: "hour dt - 2 < 24" by arith
  have "wall_micros dt_lag = wall_micros dt - 2 * 3600 * 1000000"
    unfolding wall_micros_fields eq using h by simp
  moreover have "tzoffset dt_lag = tzoffset dt" using eq by simp
  moreover have "valid_datetime dt_lag" using v lt eq by (simp add: valid_datetime_def)
  ultimately show ?thesis by blast
next
  case False
  then have h: "hour dt < 2" by simp
  from l h obtain y m d where p: "prev_day (year dt) (month dt) (day dt) = Some (y, m, d)"
    by (cases "prev_day (year dt) (month dt) (day dt)")
       (auto simp: minus_lag_def SAFETY_LAG_HOURS_def)
  with l h have eq: "dt_lag = dt\<lparr>year := y, month := m, day := d, hour := hour dt + 24 - 2\<rparr>"
    by (simp add: minus_lag_def SAFETY_LAG_HOURS_def)
  from v have "valid_date (year dt) (month dt) (day dt)" by (simp add: valid_datetime_def)
  from prev_day_ordinal [OF this p]
  have ord: "int (toordinal (year dt) (month dt) (day dt)) = int (toordinal y m d) + 1"
    and vd: "valid_date y m d" by auto
  from h have hh: "int (hour dt + 24 - 2) = int (hour dt) + 22" by simp
  from h have lt: "hour dt + 24 - 2 < 24" by arith
  have "wall_micros dt_lag = wall_micros dt - 2 * 3600 * 1000000"
    unfolding wall_micros_fields eq using hh ord by simp
  moreover have "tzoffset dt_lag = tzoffset dt" using eq by simp
  moreover have "valid_datetime dt_lag" using v lt vd eq by (simp add: valid_datetime_def)
  ultimately show ?thesis by blast
qed

lemma prev_day_None: "prev_day y m d = None \<longleftrightarrow> (d \<le> 1 \<and> m \<le> 1 \<and> y \<le> 1)"
  by (simp add: prev_day_def)

lemma minus_lag_defined:
  "minus_lag dt = None \<longleftrightarrow> (hour dt < 2 \<and> day dt \<le> 1 \<and> month dt \<le> 1 \<and> year dt \<le> 1)"
proof (cases "2 \<le> hour dt")
  case True
  then show ?thesis by (simp add: minus_lag_def SAFETY_LAG_HOURS_def)
next
  case False
  then have "minus_lag dt = None \<longleftrightarrow> prev_day (year dt) (month dt) (day dt) = None"
    by (cases "prev_day (year dt) (month dt) (day dt)")
       (auto simp: minus_lag_def SAFETY_LAG_HOURS_def)
  with False show ?thesis by (simp add: prev_day_None)
qed

lemma fromisoformat_valid: "fromisoformat reader s = Some dt \<Longrightarrow> valid_datetime dt"
  by (cases "reader s") (auto simp: fromisoformat_def split: if_splits)

lemma fromisoformat_read:
  "reader s = Some dt \<Longrightarrow> valid_datetime dt \<Longrightarrow> fromisoformat reader s = Some dt"
  by (simp add: fromisoformat_def)

lemma length_pad_digits: "length (pad_digits w n) = w"
  by (induction w arbitrary: n) simp_all

lemma isoformat_nonempty: "isoformat dt \<noteq> []"
proof -
  have "length (isoformat dt) \<noteq> 0"
    by (simp add: isoformat_def length_pad_digits)
  then show ?thesis by simp
qed

text \<open>
  Claim C6, amended. Whatever spellings the interpreter reads: in a run that is not a
  bootstrap, with a stored watermark that \<^verbatim>\<open>datetime.fromisoformat\<close> parses to a timestamp
  not within the first two hours of 1 January of year 1, the fetch-since value is the ISO
  text of the watermark moved back by exactly two hours (same offset), and the filter is
  \<^verbatim>\<open>:updated_at > '<that text>'\<close>. The stored watermark \<^verbatim>\<open>2025-01-10T10:00:00Z\<close>, which reaches
  the parser as \<^verbatim>\<open>2025-01-10T10:00:00+00:00\<close>, gives the filter
  \<^verbatim>\<open>:updated_at > '2025-01-10T08:00:00+00:00'\<close>.
\<close>

theorem fetch_since_lagged_watermark:
  assumes inc: "\<not> is_bootstrap_of mode (Some wm)" and ne: "wm \<noteq> []"
    and parse: "fromisoformat reader (replace_Z wm) = Some dt"
    and rep: "\<not> (year dt = 1 \<and> month dt = 1 \<and> day dt = 1 \<and> hour dt < 2)"
  shows "(\<exists>dt_lag. minus_lag dt = Some dt_lag
           \<and> valid_datetime dt_lag
           \<and> wall_micros dt_lag = wall_micros dt - 2 * 3600 * 1000000
           \<and> tzoffset dt_lag = tzoffset dt
           \<and> fetch_since_of reader (is_bootstrap_of mode (Some wm)) (Some wm)
               = Some (isoformat dt_lag)
           \<and> where_clause (fetch_params
                 (fetch_since_of reader (is_bootstrap_of mode (Some wm)) (Some wm)) off)
               = Some ('':updated_at > '' @ [CHR 0x27] @ isoformat dt_lag @ [CHR 0x27]))
       \<and> (reader ''2025-01-10T10:00:00+00:00''
             = Some \<lparr>year = 2025, month = 1, day = 10, hour = 10, minute = 0, second = 0,
                     microsecond = 0, tzoffset = Some 0\<rparr> \<longrightarrow>
           where_clause (fetch_params
             (fetch_since_of reader (is_bootstrap_of ''incremental'' (Some ''2025-01-10T10:00:00Z''))
                (Some ''2025-01-10T10:00:00Z'')) 0)
           = Some ('':updated_at > '' @ [CHR 0x27] @ ''2025-01-10T08:00:00+00:00'' @ [CHR 0x27]))"
proof (intro conjI impI)
  have v: "valid_datetime dt" using parse by (rule fromisoformat_valid)
  then have "1 \<le> year dt" "1 \<le> month dt" "1 \<le> day dt"
    by (simp_all add: valid_datetime_def valid_date_def)
  with rep have "minus_lag dt \<noteq> None" by (simp only: minus_lag_defined) arith
  then obtain dt_lag where l: "minus_lag dt = Some dt_lag" by blast
  from minus_lag_micros [OF v l]
  have sem: "valid_datetime dt_lag" "wall_micros dt_lag = wall_micros dt - 2 * 3600 * 1000000"
    "tzoffset dt_lag = tzoffset dt" by simp_all
  have fs: "fetch_since_of reader (is_bootstrap_of mode (Some wm)) (Some wm)
              = Some (isoformat dt_lag)"
    using inc ne parse l by (simp add: fetch_since_of_def)
  have "where_clause (fetch_params (Some (isoformat dt_lag)) off)
               = Some ('':updated_at > '' @ [CHR 0x27] @ isoformat dt_lag @ [CHR 0x27])"
    using isoformat_nonempty [of dt_lag] by (simp add: fetch_params_def)
  with l sem fs show "\<exists>dt_lag. minus_lag dt = Some dt_lag
           \<and> valid_datetime dt_lag
           \<and> wall_micros dt_lag = wall_micros dt - 2 * 3600 * 1000000
           \<and> tzoffset dt_lag = tzoffset dt
           \<and> fetch_since_of reader (is_bootstrap_of mode (Some wm)) (Some wm)
               = Some (isoformat dt_lag)
           \<and> where_clause (fetch_params
                 (fetch_since_of reader (is_bootstrap_of mode (Some wm)) (Some wm)) off)
               = Some ('':updated_at > '' @ [CHR 0x27] @ isoformat dt_lag @ [CHR 0x27])"
    by auto
next
  let ?dt = "\<lparr>year = 2025, month = 1, day = 10, hour = 10, minute = 0, second = 0,
                     microsecond = 0, tzoffset = Some 0\<rparr>"
  assume read: "reader ''2025-01-10T10:00:00+00:00'' = Some ?dt"
  have rz: "replace_Z ''2025-01-10T10:00:00Z'' = ''2025-01-10T10:00:00+00:00''"
    by code_simp
  have v: "valid_datetime ?dt"
    by code_simp
  have lag: "map_option isoformat (minus_lag ?dt) = Some ''2025-01-10T08:00:00+00:00''"
    by code_simp
  have nb: "\<not> is_bootstrap_of ''incremental'' (Some ''2025-01-10T10:00:00Z'')"
    by (simp add: is_bootstrap_of_def)
  have "fromisoformat reader (replace_Z ''2025-01-10T10:00:00Z'') = Some ?dt"
    unfolding rz using read v by (rule fromisoformat_read)
  with nb lag
  have "fetch_since_of reader (is_bootstrap_of ''incremental'' (Some ''2025-01-10T10:00:00Z''))
          (Some ''2025-01-10T10:00:00Z'') = Some ''2025-01-10T08:00:00+00:00''"
    by (cases "minus_lag ?dt") (simp_all add: fetch_since_of_def)
  then show "where_clause (fetch_params
             (fetch_since_of reader (is_bootstrap_of ''incremental'' (Some ''2025-01-10T10:00:00Z''))
                (Some ''2025-01-10T10:00:00Z'')) 0)
           = Some ('':updated_at > '' @ [CHR 0x27] @ ''2025-01-10T08:00:00+00:00'' @ [CHR 0x27])"
    by (simp add: fetch_params_def)
qed

text \<open>
  Claim C6 as stated fails in two places, shown with the reader of the documented format.
  The filter for the watermark \<^verbatim>\<open>2025-01-10T10:00:00Z\<close> is not the text the claim gives:
  \<^verbatim>\<open>Z\<close> has been replaced by \<^verbatim>\<open>+00:00\<close> before parsing and \<^verbatim>\<open>isoformat()\<close> writes the offset
  back in that form. And a watermark in the first two hours of year 1 parses, but the
  subtraction overflows, the exception is caught and no fetch-since value is set.
\<close>

theorem fetch_filter_text_differs:
  "where_clause (fetch_params
      (fetch_since_of documented_format
         (is_bootstrap_of ''incremental'' (Some ''2025-01-10T10:00:00Z''))
         (Some ''2025-01-10T10:00:00Z'')) 0)
     \<noteq> Some (''updated_at > '' @ [CHR 0x27] @ ''2025-01-10T08:00:00Z'' @ [CHR 0x27])
   \<and> where_clause (fetch_params
      (fetch_since_of documented_format
         (is_bootstrap_of ''incremental'' (Some ''2025-01-10T10:00:00Z''))
         (Some ''2025-01-10T10:00:00Z'')) 0)
     \<noteq> Some ('':updated_at > '' @ [CHR 0x27] @ ''2025-01-10T08:00:00Z'' @ [CHR 0x27])
   \<and> fromisoformat documented_format (replace_Z ''0001-01-01T01:00:00'')
     = Some \<lparr>year = 1, month = 1, day = 1, hour = 1, minute = 0, second = 0,
             microsecond = 0, tzoffset = None\<rparr>
   \<and> fetch_since_of documented_format
        (is_bootstrap_of ''incremental'' (Some ''0001-01-01T01:00:00''))
        (Some ''0001-01-01T01:00:00'') = None"
  by code_simp

theorem fetch_since_lagged_watermark_witness:
  "\<not> is_bootstrap_of ''auto'' (Some ''2025-01-10T01:30'')
   \<and> fromisoformat documented_format (replace_Z ''2025-01-10T01:30'')
       = Some \<lparr>year = 2025, month = 1, day = 10, hour = 1, minute = 30, second = 0,
               microsecond = 0, tzoffset = None\<rparr>
   \<and> fetch_since_of documented_format (is_bootstrap_of ''auto'' (Some ''2025-01-10T01:30''))
        (Some ''2025-01-10T01:30'') = Some ''2025-01-09T23:30:00''
   \<and> (\<exists>dt_lag. minus_lag \<lparr>year = 2025, month = 1, day = 10, hour = 1, minute = 30, second = 0,
               microsecond = 0, tzoffset = None\<rparr> = Some dt_lag
         \<and> wall_micros dt_lag
            = wall_micros \<lparr>year = 2025, month = 1, day = 10, hour = 1, minute = 30, second = 0,
               microsecond = 0, tzoffset = None\<rparr> - 2 * 3600 * 1000000)
   \<and> documented_format ''2025-01-10T10:00:00+00:00''
       = Some \<lparr>year = 2025, month = 1, day = 10, hour = 10, minute = 0, second = 0,
               microsecond = 0, tzoffset = Some 0\<rparr>
   \<and> where_clause (fetch_params
         (fetch_since_of documented_format
            (is_bootstrap_of ''incremental'' (Some ''2025-01-10T10:00:00Z''))
            (Some ''2025-01-10T10:00:00Z'')) 0)
       = Some ('':updated_at > '' @ [CHR 0x27] @ ''2025-01-10T08:00:00+00:00'' @ [CHR 0x27])"
proof -
  let ?wm = "''2025-01-10T01:30''"
  let ?dt = "\<lparr>year = 2025, month = 1, day = 10, hour = 1, minute = 30, second = 0,
               microsecond = 0, tzoffset = None\<rparr>"
  have inc: "\<not> is_bootstrap_of ''auto'' (Some ?wm)" by code_simp
  have ne: "?wm \<noteq> []" by simp
  have parse: "fromisoformat documented_format (replace_Z ?wm) = Some ?dt" by code_simp
  have rep: "\<not> (year ?dt = 1 \<and> month ?dt = 1 \<and> day ?dt = 1 \<and> hour ?dt < 2)" by simp
  have val: "fetch_since_of documented_format (is_bootstrap_of ''auto'' (Some ?wm)) (Some ?wm)
               = Some ''2025-01-09T23:30:00''" by code_simp
  have read: "documented_format ''2025-01-10T10:00:00+00:00''
       = Some \<lparr>year = 2025, month = 1, day = 10, hour = 10, minute = 0, second = 0,
               microsecond = 0, tzoffset = Some 0\<rparr>" by code_simp
  note inst = fetch_since_lagged_watermark [OF inc ne parse rep]
  from inst have "\<exists>dt_lag. minus_lag ?dt = Some dt_lag
         \<and> wall_micros dt_lag = wall_micros ?dt - 2 * 3600 * 1000000"
    by blast
  moreover from inst read
  have "where_clause (fetch_params
         (fetch_since_of documented_format
            (is_bootstrap_of ''incremental'' (Some ''2025-01-10T10:00:00Z''))
            (Some ''2025-01-10T10:00:00Z'')) 0)
       = Some ('':updated_at > '' @ [CHR 0x27] @ ''2025-01-10T08:00:00+00:00'' @ [CHR 0x27])"
    by blast
  ultimately show ?thesis using inc parse val read by blast
qed

section \<open>Properties of the fetch loop\<close>

lemma page_limit_pos: "0 < page_limit"
  by (simp add: page_limit_def)

lemma fetch_loop_full_pages:
  assumes "\<And>k. k < n \<Longrightarrow>
             full_page (get_json env (tick w + k) sid (fetch_params since (off + k * page_limit)))"
  shows "fetch_loop env sid since off acc w =
         fetch_loop env sid since (off + n * page_limit)
           (acc @ concat (map (\<lambda>k. page_rows (get_json env (tick w + k) sid
                                   (fetch_params since (off + k * page_limit)))) [0..<n]))
           (w\<lparr>tick := tick w + n\<rparr>)"
  using assms
proof (induction n arbitrary: off acc w)
  case 0
  show ?case by simp
next
  case (Suc n)
  let ?resp = "\<lambda>k. get_json env (tick w + k) sid (fetch_params since (off + k * page_limit))"
  have "full_page (?resp 0)" using Suc.prems [of 0] by simp
  then obtain rows where r0: "?resp 0 = Inr rows" and len: "page_limit \<le> length rows"
    by (auto simp: full_page_def split: sum.splits)
  from len page_limit_pos have ne: "rows \<noteq> []" by auto
  let ?w' = "w\<lparr>tick := Suc (tick w)\<rparr>"
  have step: "fetch_loop env sid since off acc w =
              fetch_loop env sid since (off + page_limit) (acc @ rows) ?w'"
    using r0 len ne by (subst fetch_loop.simps) simp
  have shift: "get_json env (tick ?w' + k) sid (fetch_params since (off + page_limit + k * page_limit))
               = ?resp (Suc k)" for k
    by (simp add: ac_simps)
  have "\<And>k. k < n \<Longrightarrow> full_page (get_json env (tick ?w' + k) sid
              (fetch_params since (off + page_limit + k * page_limit)))"
    using Suc.prems [of "Suc _"] by (simp only: shift)
  from Suc.IH [OF this, of "acc @ rows"]
  have "fetch_loop env sid since (off + page_limit) (acc @ rows) ?w' =
        fetch_loop env sid since (off + page_limit + n * page_limit)
          ((acc @ rows) @ concat (map (\<lambda>k. page_rows (?resp (Suc k))) [0..<n]))
          (?w'\<lparr>tick := tick ?w' + n\<rparr>)"
    by (simp only: shift)
  moreover have "concat (map (\<lambda>k. page_rows (?resp k)) [0..<Suc n]) =
                 rows @ concat (map (\<lambda>k. page_rows (?resp (Suc k))) [0..<n])"
  proof -
    have "[0..<Suc n] = 0 # map Suc [0..<n]"
      by (simp only: map_Suc_upt upt_conv_Cons [of 0 "Suc n"])
    then show ?thesis using r0 by (simp add: page_rows_def comp_def)
  qed
  ultimately show ?case using step by (simp add: add.assoc)
qed

lemma fetch_loop_last_page:
  assumes "get_json env (tick w) sid (fetch_params since off) = Inr rows"
    and "length rows < page_limit"
  shows "fetch_loop env sid since off acc w = Some (Inr (acc @ rows), w\<lparr>tick := Suc (tick w)\<rparr>)"
  using assms by (subst fetch_loop.simps) simp

lemma fetch_loop_error:
  assumes "get_json env (tick w) sid (fetch_params since off) = Inl e"
  shows "fetch_loop env sid since off acc w = Some (Inl e, w\<lparr>tick := Suc (tick w)\<rparr>)"
  using assms by (subst fetch_loop.simps) simp

lemma fetch_pages_until_short:
  assumes full: "\<forall>k<n. full_page (page_response env sid since w k)"
    and last: "page_response env sid since w n = Inr rows" "length rows < page_limit"
  shows "fetch_socrata_pages env sid since w =
         Some (Inr (concat (map (\<lambda>k. page_rows (page_response env sid since w k)) [0..<Suc n])),
               w\<lparr>tick := tick w + Suc n\<rparr>)"
proof -
  have "fetch_loop env sid since 0 [] w =
        fetch_loop env sid since (0 + n * page_limit)
          ([] @ concat (map (\<lambda>k. page_rows (get_json env (tick w + k) sid
                                   (fetch_params since (0 + k * page_limit)))) [0..<n]))
          (w\<lparr>tick := tick w + n\<rparr>)"
    using full by (intro fetch_loop_full_pages) (simp add: page_response_def)
  also have "\<dots> = Some (Inr (concat (map (\<lambda>k. page_rows (page_response env sid since w k)) [0..<n]) @ rows),
                       w\<lparr>tick := tick w + n\<rparr>\<lparr>tick := Suc (tick (w\<lparr>tick := tick w + n\<rparr>))\<rparr>)"
    using last by (simp add: fetch_loop_last_page page_response_def)
  finally show ?thesis using last(1)
    by (simp add: fetch_socrata_pages_def page_rows_def)
qed

lemma fetch_pages_until_error:
  assumes full: "\<forall>k<n. full_page (page_response env sid since w k)"
    and last: "page_response env sid since w n = Inl e"
  shows "fetch_socrata_pages env sid since w = Some (Inl e, w\<lparr>tick := tick w + Suc n\<rparr>)"
proof -
  have "fetch_loop env sid since 0 [] w =
        fetch_loop env sid since (0 + n * page_limit)
          ([] @ concat (map (\<lambda>k. page_rows (get_json env (tick w + k) sid
                                   (fetch_params since (0 + k * page_limit)))) [0..<n]))
          (w\<lparr>tick := tick w + n\<rparr>)"
    using full by (intro fetch_loop_full_pages) (simp add: page_response_def)
  also have "\<dots> = Some (Inl e, w\<lparr>tick := tick w + n\<rparr>\<lparr>tick := Suc (tick (w\<lparr>tick := tick w + n\<rparr>))\<rparr>)"
    using last by (simp add: fetch_loop_error page_response_def)
  finally show ?thesis by (simp add: fetch_socrata_pages_def)
qed

text \<open>
  Claim C9. If some request of the fetch is answered with fewer rows than the page size of
  2000 (an empty page included), \<open>fetch_socrata_pages\<close> returns. The \<open>k\<close>-th request asks for
  offset \<open>k * 2000\<close>; when the pages before the \<open>n\<close>-th are full and the \<open>n\<close>-th is short,
  the result is the rows of pages \<open>0\<close> to \<open>n\<close> in order, after \<open>n + 1\<close> requests. A full last
  page followed by an empty page is the case of an empty \<open>n\<close>-th page.
\<close>

theorem fetch_socrata_pages_terminates:
  assumes ev: "\<exists>n rows. page_response env sid since w n = Inr rows \<and> length rows < page_limit"
  shows "\<exists>res w'. fetch_socrata_pages env sid since w = Some (res, w')
       \<and> (\<forall>n. (\<forall>k<n. full_page (page_response env sid since w k))
              \<and> (\<exists>rows. page_response env sid since w n = Inr rows \<and> length rows < page_limit)
            \<longrightarrow> res = Inr (concat (map (\<lambda>k. page_rows (page_response env sid since w k)) [0..<Suc n]))
              \<and> w' = w\<lparr>tick := tick w + Suc n\<rparr>)"
proof -
  let ?stop = "\<lambda>n. \<not> full_page (page_response env sid since w n)"
  from ev obtain n0 rows0 where "page_response env sid since w n0 = Inr rows0"
    "length rows0 < page_limit" by blast
  then have "?stop n0" by (simp add: full_page_def)
  then have "\<exists>n. ?stop n" ..
  then obtain m where m: "?stop m" and least: "\<forall>k<m. \<not> ?stop k"
    using exists_least_iff [of ?stop] by blast
  then have full: "\<forall>k<m. full_page (page_response env sid since w k)" by simp
  have ret: "\<exists>res w'. fetch_socrata_pages env sid since w = Some (res, w')"
  proof (cases "page_response env sid since w m")
    case (Inl e)
    with full show ?thesis using fetch_pages_until_error by blast
  next
    case (Inr rows)
    with m have "length rows < page_limit" by (simp add: full_page_def)
    with full Inr show ?thesis using fetch_pages_until_short by blast
  qed
  then obtain res w' where rw: "fetch_socrata_pages env sid since w = Some (res, w')" by blast
  have "res = Inr (concat (map (\<lambda>k. page_rows (page_response env sid since w k)) [0..<Suc n]))
          \<and> w' = w\<lparr>tick := tick w + Suc n\<rparr>"
    if "\<forall>k<n. full_page (page_response env sid since w k)"
      and "\<exists>rows. page_response env sid since w n = Inr rows \<and> length rows < page_limit" for n
    using that rw fetch_pages_until_short [of n env sid since w] by auto
  with rw show ?thesis by blast
qed

theorem fetch_socrata_pages_terminates_witness:
  "full_page (page_response one_full_page_env ''3pee-9qhc'' None empty_world 0)
   \<and> page_response one_full_page_env ''3pee-9qhc'' None empty_world 1 = Inr []
   \<and> fetch_socrata_pages one_full_page_env ''3pee-9qhc'' None empty_world
       = Some (Inr (replicate 2000 fetched_row), empty_world\<lparr>tick := 2\<rparr>)"
proof -
  let ?resp = "page_response one_full_page_env ''3pee-9qhc'' None empty_world"
  have p0: "?resp 0 = Inr (replicate 2000 fetched_row)"
    by (simp add: page_response_def one_full_page_env_def fetch_params_def)
  have p1: "?resp 1 = Inr []"
    by (simp add: page_response_def one_full_page_env_def fetch_params_def page_limit_def)
  have f0: "full_page (?resp 0)"
    by (simp add: p0 full_page_def page_limit_def)
  have short: "\<exists>n rows. ?resp n = Inr rows \<and> length rows < page_limit"
    using p1 page_limit_pos by (intro exI [of _ 1] exI [of _ "[]"]) simp
  from fetch_socrata_pages_terminates [OF short] obtain res w'
    where ret: "fetch_socrata_pages one_full_page_env ''3pee-9qhc'' None empty_world = Some (res, w')"
      and shape: "\<And>n. (\<forall>k<n. full_page (?resp k))
              \<and> (\<exists>rows. ?resp n = Inr rows \<and> length rows < page_limit)
            \<Longrightarrow> res = Inr (concat (map (\<lambda>k. page_rows (?resp k)) [0..<Suc n]))
              \<and> w' = empty_world\<lparr>tick := tick empty_world + Suc n\<rparr>"
    by blast
  have "(\<forall>k<1. full_page (?resp k)) \<and> (\<exists>rows. ?resp 1 = Inr rows \<and> length rows < page_limit)"
    using f0 p1 page_limit_pos by simp
  from shape [OF this]
  have "res = Inr (concat (map (\<lambda>k. page_rows (?resp k)) [0..<Suc 1]))"
    and "w' = empty_world\<lparr>tick := tick empty_world + Suc 1\<rparr>" by simp_all
  moreover have "[0..<Suc 1] = [0, 1]" by (simp add: upt_rec)
  ultimately have "res = Inr (replicate 2000 fetched_row)" and "w' = empty_world\<lparr>tick := 2\<rparr>"
    using p0 p1 by (simp_all add: page_rows_def empty_world_def)
  with ret f0 p1 show ?thesis by simp
qed

section \<open>Properties of the bucket\<close>

lemma write_bytes_tick: "tick (snd (write_bytes env rel data w)) = Suc (tick w)"
  by (simp add: write_bytes_def Let_def)

lemma write_bytes_result:
  "fst (write_bytes env rel data w) = (if write_fails env (tick w) then Inl OSError else Inr ())"
  by (simp add: write_bytes_def Let_def)

lemma write_bytes_other:
  assumes "p \<noteq> rel" "p \<noteq> rel @ ''.tmp''"
  shows "map_of (r2 (snd (write_bytes env rel data w))) p = map_of (r2 w) p"
  using assms by (simp add: write_bytes_def Let_def update_conv' delete_conv')

lemma write_bytes_target:
  "map_of (r2 (snd (write_bytes env rel data w))) rel =
     (if write_fails env (tick w) then map_of (r2 w) rel else Some (Whole data))"
  by (simp add: write_bytes_def Let_def update_conv' delete_conv')

text \<open>What a failed write leaves behind: \<open>write_bytes\<close> keeps the target as it was,
  \<open>to_parquet\<close> tears it.\<close>

lemma write_bytes_failed:
  assumes "write_fails env (tick w)"
  shows "fst (write_bytes env rel data w) = Inl OSError
       \<and> map_of (r2 (snd (write_bytes env rel data w))) rel = map_of (r2 w) rel"
  using assms by (simp add: write_bytes_result write_bytes_target)

lemma to_parquet_failed:
  assumes "arrow_convertible df" "write_fails env (tick w)"
  shows "fst (to_parquet env path df w) = Inl OSError
       \<and> map_of (r2 (snd (to_parquet env path df w))) path = Some (Torn (Parquet df))"
  using assms by (simp add: to_parquet_def update_conv')

lemma fetch_loop_r2:
  assumes "fetch_loop env sid since off acc w = Some (res, w')"
  shows "r2 w' = r2 w"
proof -
  have "r2 (snd (res, w')) = r2 w"
  proof (rule fetch_loop.raw_induct
      [where P = "\<lambda>env sid since off acc w y. r2 (snd y) = r2 w", OF _ assms])
    fix f :: "env \<Rightarrow> string \<Rightarrow> string option \<Rightarrow> nat \<Rightarrow> row list \<Rightarrow> world
              \<Rightarrow> ((error + row list) \<times> world) option"
    fix env sid since off acc w y
    assume IH: "\<And>env sid since off acc w y. f env sid since off acc w = Some y \<Longrightarrow> r2 (snd y) = r2 w"
      and eq: "(case get_json env (tick w) sid (fetch_params since off) of
        Inl e \<Rightarrow> Some (Inl e, w\<lparr>tick := Suc (tick w)\<rparr>)
      | Inr rows \<Rightarrow>
          if rows = [] then Some (Inr acc, w\<lparr>tick := Suc (tick w)\<rparr>)
          else if length rows < page_limit then
            Some (Inr (acc @ rows), w\<lparr>tick := Suc (tick w)\<rparr>)
          else f env sid since (off + page_limit) (acc @ rows)
                 (w\<lparr>tick := Suc (tick w)\<rparr>)) = Some y"
    show "r2 (snd y) = r2 w"
    proof (cases "get_json env (tick w) sid (fetch_params since off)")
      case (Inl e)
      with eq show ?thesis by auto
    next
      case (Inr rows)
      show ?thesis
      proof (cases "rows = [] \<or> length rows < page_limit")
        case True
        with eq Inr show ?thesis by (auto split: if_splits)
      next
        case False
        with eq Inr have "f env sid since (off + page_limit) (acc @ rows)
                 (w\<lparr>tick := Suc (tick w)\<rparr>) = Some y" by simp
        from IH [OF this] show ?thesis by simp
      qed
    qed
  qed
  then show ?thesis by simp
qed

lemma fetch_socrata_pages_r2:
  "fetch_socrata_pages env sid since w = Some (res, w') \<Longrightarrow> r2 w' = r2 w"
  unfolding fetch_socrata_pages_def by (rule fetch_loop_r2)

lemma curated_not_raw:
  assumes "prefix ''curated/'' p"
  shows "p \<noteq> ''raw/'' @ q"
  using assms by (auto simp: prefix_def)

lemma store_raw_curated:
  assumes "prefix ''curated/'' p"
  shows "map_of (r2 (snd (store_raw env run_id key b rows w))) p = map_of (r2 w) p"
proof -
  have ne: "p \<noteq> r2_raw_key key run_id b" "p \<noteq> r2_raw_key key run_id b @ ''.tmp''"
    "p \<noteq> raw_dir key run_id @ ''/meta.json''" "p \<noteq> (raw_dir key run_id @ ''/meta.json'') @ ''.tmp''"
    using curated_not_raw [OF assms] by (simp_all add: r2_raw_key_def raw_dir_def)
  let ?w1 = "snd (write_bytes env (r2_raw_key key run_id b) (RawRows rows) w)"
  have first: "map_of (r2 ?w1) p = map_of (r2 w) p"
    using ne(1,2) by (rule write_bytes_other)
  show ?thesis
  proof (cases "write_fails env (tick w)")
    case True
    then have "store_raw env run_id key b rows w =
               (Inl OSError, ?w1)"
      by (simp add: store_raw_def write_bytes_def Let_def)
    with first show ?thesis by simp
  next
    case False
    then have "store_raw env run_id key b rows w =
       write_bytes env (raw_dir key run_id @ ''/meta.json'')
            (Meta (length rows) (isoformat (utcnow env (tick ?w1))) b)
            (?w1\<lparr>tick := Suc (tick ?w1)\<rparr>)"
      by (simp add: store_raw_def write_bytes_def Let_def)
    moreover have "map_of (r2 (snd (write_bytes env (raw_dir key run_id @ ''/meta.json'')
            (Meta (length rows) (isoformat (utcnow env (tick ?w1))) b)
            (?w1\<lparr>tick := Suc (tick ?w1)\<rparr>)))) p = map_of (r2 (?w1\<lparr>tick := Suc (tick ?w1)\<rparr>)) p"
      using ne(3,4) by (rule write_bytes_other)
    ultimately show ?thesis using first by simp
  qed
qed

text \<open>
  Claim C8. When the fetch has returned and the extractor's output for the fetched rows is
  an empty frame, \<open>process_dataset\<close> returns, and every file whose path starts with
  \<^verbatim>\<open>curated/\<close>, the curated table of the dataset among them, is what it was before: its
  only writes went to the raw snapshot and its metadata.
\<close>

theorem empty_delta_leaves_curated:
  assumes fetch: "fetch_socrata_pages env (cfg_soda_id config)
                    (fetch_since_of (iso_reader env) (is_bootstrap_of mode watermark) watermark) w
                  = Some (Inr raw_rows, w1)"
    and norm: "cfg_extractor config raw_rows = Inr df_delta"
    and empty: "empty_frame df_delta"
  shows "\<exists>res w'. process_dataset env run_id mode key config watermark w = Some (res, w')
       \<and> (\<forall>p. prefix ''curated/'' p \<longrightarrow> map_of (r2 w') p = map_of (r2 w) p)"
proof -
  let ?b = "is_bootstrap_of mode watermark"
  let ?sr = "store_raw env run_id key ?b raw_rows w1"
  have pd: "process_dataset env run_id mode key config watermark w =
            Some (after_fetch env run_id key config ?b raw_rows w1)"
    using fetch by (simp add: process_dataset_def Let_def)
  have af: "snd (after_fetch env run_id key config ?b raw_rows w1) = snd ?sr"
    using norm empty by (cases ?sr; cases "fst ?sr") (auto simp: after_fetch_def)
  have "map_of (r2 (snd (after_fetch env run_id key config ?b raw_rows w1))) p = map_of (r2 w) p"
    if "prefix ''curated/'' p" for p
  proof -
    have "map_of (r2 (snd ?sr)) p = map_of (r2 w1) p" using that by (rule store_raw_curated)
    moreover have "r2 w1 = r2 w" using fetch by (rule fetch_socrata_pages_r2)
    ultimately show ?thesis using af by simp
  qed
  with pd show ?thesis
    by (cases "after_fetch env run_id key config ?b raw_rows w1") auto
qed

theorem empty_delta_leaves_curated_witness:
  "fetch_socrata_pages filtering_env (cfg_soda_id contractors_config)
     (fetch_since_of (iso_reader filtering_env)
        (is_bootstrap_of ''incremental'' (Some ''2025-01-10T10:00:00''))
        (Some ''2025-01-10T10:00:00'')) committed_world
     = Some (Inr [], committed_world\<lparr>tick := 1\<rparr>)
   \<and> cfg_extractor contractors_config [] = Inr []
   \<and> empty_frame []
   \<and> (\<exists>res w'. process_dataset filtering_env ''run1'' ''incremental'' ''contractors''
                   contractors_config (Some ''2025-01-10T10:00:00'') committed_world = Some (res, w')
         \<and> map_of (r2 w') ''curated/contractors/parquet/data.parquet''
             = Some (Whole (Parquet [committed_row])))"
proof -
  have fetch: "fetch_socrata_pages filtering_env (cfg_soda_id contractors_config)
     (fetch_since_of (iso_reader filtering_env)
        (is_bootstrap_of ''incremental'' (Some ''2025-01-10T10:00:00''))
        (Some ''2025-01-10T10:00:00'')) committed_world
     = Some (Inr [], committed_world\<lparr>tick := 1\<rparr>)"
    by code_simp
  have norm: "cfg_extractor contractors_config [] = Inr []"
    by (simp add: contractors_config_def)
  have empty: "empty_frame []"
    by (simp add: empty_frame_def)
  from empty_delta_leaves_curated [OF fetch norm empty, of "''run1''" "''contractors''"]
  obtain res w' where
    ret: "process_dataset filtering_env ''run1'' ''incremental'' ''contractors''
            contractors_config (Some ''2025-01-10T10:00:00'') committed_world = Some (res, w')"
    and same: "\<And>p. prefix ''curated/'' p \<Longrightarrow> map_of (r2 w') p = map_of (r2 committed_world) p"
    by blast
  have "prefix ''curated/'' ''curated/contractors/parquet/data.parquet''" by simp
  from same [OF this]
  have "map_of (r2 w') ''curated/contractors/parquet/data.parquet''
          = Some (Whole (Parquet [committed_row]))"
    by (simp add: committed_world_def)
  with ret fetch norm empty show ?thesis by blast
qed

lemma to_parquet_other:
  assumes "p \<noteq> path"
  shows "map_of (r2 (snd (to_parquet env path df w))) p = map_of (r2 w) p"
  using assms by (simp add: to_parquet_def update_conv')

lemma upsert_curated_other:
  assumes "p \<noteq> curated_dir key @ ''/data.parquet''"
  shows "map_of (r2 (snd (upsert_curated env key config b df_delta w))) p = map_of (r2 w) p"
proof (cases "merge_frames (pk_of config) (load_existing (r2 w) (curated_dir key) b) df_delta")
  case (Inl e)
  then show ?thesis by (simp add: upsert_curated_def Let_def)
next
  case (Inr df_final)
  then have "upsert_curated env key config b df_delta w =
             to_parquet env (curated_dir key @ ''/data.parquet'') df_final w"
    by (simp add: upsert_curated_def Let_def)
  with assms show ?thesis by (simp add: to_parquet_other)
qed

lemma raw_not_curated:
  assumes "prefix ''raw/'' p"
  shows "p \<noteq> ''curated/'' @ q"
  using assms by (auto simp: prefix_def)

lemma after_store_raw_paths:
  assumes ok: "store_raw env run_id key b raw_rows w = (Inr (), w1)"
    and p: "prefix ''raw/'' p"
  shows "map_of (r2 (snd (after_fetch env run_id key config b raw_rows w))) p = map_of (r2 w1) p"
proof (cases "cfg_extractor config raw_rows")
  case (Inl e)
  with ok show ?thesis by (simp add: after_fetch_def)
next
  case (Inr df_delta)
  show ?thesis
  proof (cases "empty_frame df_delta")
    case True
    with ok Inr show ?thesis by (simp add: after_fetch_def)
  next
    case False
    with ok Inr have "after_fetch env run_id key config b raw_rows w =
                      upsert_curated env key config b df_delta w1"
      by (simp add: after_fetch_def)
    moreover have "p \<noteq> curated_dir key @ ''/data.parquet''"
      using raw_not_curated [OF p] by (simp add: curated_dir_def)
    ultimately show ?thesis by (simp add: upsert_curated_other)
  qed
qed

lemma store_raw_success:
  assumes ok1: "\<not> write_fails env (tick w)" and ok2: "\<not> write_fails env (tick w + 2)"
  shows "\<exists>w1. store_raw env run_id key b raw_rows w = (Inr (), w1)
       \<and> map_of (r2 w1) (r2_raw_key key run_id b) = Some (Whole (RawRows raw_rows))
       \<and> map_of (r2 w1) (raw_dir key run_id @ ''/meta.json'')
           = Some (Whole (Meta (length raw_rows) (isoformat (utcnow env (Suc (tick w)))) b))
       \<and> map_of (r2 w1) (r2_raw_key key run_id (\<not> b)) = map_of (r2 w) (r2_raw_key key run_id (\<not> b))"
proof -
  let ?raw = "r2_raw_key key run_id b"
  let ?meta = "raw_dir key run_id @ ''/meta.json''"
  let ?w1 = "snd (write_bytes env ?raw (RawRows raw_rows) w)"
  let ?w1' = "?w1\<lparr>tick := Suc (tick ?w1)\<rparr>"
  let ?m = "Meta (length raw_rows) (isoformat (utcnow env (tick ?w1))) b"
  let ?w2 = "snd (write_bytes env ?meta ?m ?w1')"
  have t1: "tick ?w1 = Suc (tick w)" by (rule write_bytes_tick)
  have f1: "fst (write_bytes env ?raw (RawRows raw_rows) w) = Inr ()"
    using ok1 by (simp add: write_bytes_result)
  have f2: "fst (write_bytes env ?meta ?m ?w1') = Inr ()"
    using ok2 t1 by (simp add: write_bytes_result)
  have eq: "store_raw env run_id key b raw_rows w = (Inr (), ?w2)"
    using f1 f2 by (cases "write_bytes env ?raw (RawRows raw_rows) w";
                    cases "write_bytes env ?meta ?m ?w1'") (simp add: store_raw_def)
  have ne: "?raw \<noteq> ?meta" "?raw \<noteq> ?meta @ ''.tmp''"
    "r2_raw_key key run_id (\<not> b) \<noteq> ?meta" "r2_raw_key key run_id (\<not> b) \<noteq> ?meta @ ''.tmp''"
    "r2_raw_key key run_id (\<not> b) \<noteq> ?raw" "r2_raw_key key run_id (\<not> b) \<noteq> ?raw @ ''.tmp''"
    by (simp_all add: r2_raw_key_def)
  have a: "map_of (r2 ?w2) ?raw = Some (Whole (RawRows raw_rows))"
    using ok1 by (simp add: write_bytes_other [OF ne(1,2)] write_bytes_target)
  have b: "map_of (r2 ?w2) ?meta = Some (Whole ?m)"
    using ok2 t1 by (simp add: write_bytes_target)
  have c: "map_of (r2 ?w2) (r2_raw_key key run_id (\<not> b)) = map_of (r2 w) (r2_raw_key key run_id (\<not> b))"
    by (simp add: write_bytes_other [OF ne(3,4)] write_bytes_other [OF ne(5,6)])
  from eq a b c t1 show ?thesis by simp
qed

text \<open>
  Claim C10. With declared mode \<^verbatim>\<open>incremental\<close> and no stored watermark (\<^verbatim>\<open>None\<close> or the empty
  string) the run is not a bootstrap, no fetch-since value is set and the request carries
  no \<^verbatim>\<open>$where\<close> clause. When the fetch returns and the two raw writes succeed, the fetched
  rows are stored under \<^verbatim>\<open>delta.json\<close>, the metadata records \<open>is_bootstrap = False\<close>, and
  \<^verbatim>\<open>full.json\<close> is not written.
\<close>

theorem incremental_without_watermark:
  assumes mode: "mode = ''incremental''" and nowm: "\<not> truthy watermark"
  shows "\<not> is_bootstrap_of mode watermark
       \<and> fetch_since_of (iso_reader env) (is_bootstrap_of mode watermark) watermark = None
       \<and> where_clause (fetch_params
             (fetch_since_of (iso_reader env) (is_bootstrap_of mode watermark) watermark) off)
           = None
       \<and> (\<forall>raw_rows w1.
             fetch_socrata_pages env (cfg_soda_id config) None w = Some (Inr raw_rows, w1)
             \<and> \<not> write_fails env (tick w1) \<and> \<not> write_fails env (tick w1 + 2) \<longrightarrow>
             (\<exists>res w'. process_dataset env run_id mode key config watermark w = Some (res, w')
                \<and> map_of (r2 w') (raw_dir key run_id @ ''/delta.json'')
                    = Some (Whole (RawRows raw_rows))
                \<and> map_of (r2 w') (raw_dir key run_id @ ''/meta.json'')
                    = Some (Whole (Meta (length raw_rows)
                         (isoformat (utcnow env (Suc (tick w1)))) False))
                \<and> map_of (r2 w') (raw_dir key run_id @ ''/full.json'')
                    = map_of (r2 w) (raw_dir key run_id @ ''/full.json'')))"
proof (intro conjI allI impI)
  show nb: "\<not> is_bootstrap_of mode watermark"
    using mode by (simp add: is_bootstrap_of_def)
  show fs: "fetch_since_of (iso_reader env) (is_bootstrap_of mode watermark) watermark = None"
    using nowm by (cases watermark) (auto simp: fetch_since_of_def truthy_def)
  then show "where_clause (fetch_params
             (fetch_since_of (iso_reader env) (is_bootstrap_of mode watermark) watermark) off)
           = None"
    by (simp add: fetch_params_def)
  fix raw_rows w1
  assume h: "fetch_socrata_pages env (cfg_soda_id config) None w = Some (Inr raw_rows, w1)
             \<and> \<not> write_fails env (tick w1) \<and> \<not> write_fails env (tick w1 + 2)"
  then have fetch: "fetch_socrata_pages env (cfg_soda_id config) None w = Some (Inr raw_rows, w1)"
    and ok1: "\<not> write_fails env (tick w1)" and ok2: "\<not> write_fails env (tick w1 + 2)"
    by simp_all
  have pd: "process_dataset env run_id mode key config watermark w =
            Some (after_fetch env run_id key config False raw_rows w1)"
    using fetch fs nb by (simp add: process_dataset_def Let_def)
  from store_raw_success [OF ok1 ok2, of run_id key False raw_rows]
  obtain w2 where sr: "store_raw env run_id key False raw_rows w1 = (Inr (), w2)"
    and d: "map_of (r2 w2) (r2_raw_key key run_id False) = Some (Whole (RawRows raw_rows))"
    and m: "map_of (r2 w2) (raw_dir key run_id @ ''/meta.json'')
           = Some (Whole (Meta (length raw_rows) (isoformat (utcnow env (Suc (tick w1)))) False))"
    and f: "map_of (r2 w2) (r2_raw_key key run_id True) = map_of (r2 w1) (r2_raw_key key run_id True)"
    by auto
  have keys: "r2_raw_key key run_id False = raw_dir key run_id @ ''/delta.json''"
    "r2_raw_key key run_id True = raw_dir key run_id @ ''/full.json''"
    by (simp_all add: r2_raw_key_def)
  have raw: "prefix ''raw/'' (raw_dir key run_id @ suffix)" for suffix
    by (simp add: raw_dir_def)
  let ?af = "after_fetch env run_id key config False raw_rows w1"
  have same: "map_of (r2 (snd ?af)) (raw_dir key run_id @ suffix) = map_of (r2 w2) (raw_dir key run_id @ suffix)"
    for suffix
    using sr raw by (rule after_store_raw_paths)
  have "r2 w1 = r2 w" using fetch by (rule fetch_socrata_pages_r2)
  with d m f keys same
  have "map_of (r2 (snd ?af)) (raw_dir key run_id @ ''/delta.json'') = Some (Whole (RawRows raw_rows))"
    "map_of (r2 (snd ?af)) (raw_dir key run_id @ ''/meta.json'')
       = Some (Whole (Meta (length raw_rows) (isoformat (utcnow env (Suc (tick w1)))) False))"
    "map_of (r2 (snd ?af)) (raw_dir key run_id @ ''/full.json'')
       = map_of (r2 w) (raw_dir key run_id @ ''/full.json'')"
    by simp_all
  with pd show "\<exists>res w'. process_dataset env run_id mode key config watermark w = Some (res, w')
                \<and> map_of (r2 w') (raw_dir key run_id @ ''/delta.json'')
                    = Some (Whole (RawRows raw_rows))
                \<and> map_of (r2 w') (raw_dir key run_id @ ''/meta.json'')
                    = Some (Whole (Meta (length raw_rows)
                         (isoformat (utcnow env (Suc (tick w1)))) False))
                \<and> map_of (r2 w') (raw_dir key run_id @ ''/full.json'')
                    = map_of (r2 w) (raw_dir key run_id @ ''/full.json'')"
    by (cases ?af) auto
qed

theorem incremental_without_watermark_witness:
  "\<not> truthy None
   \<and> fetch_socrata_pages filtering_env (cfg_soda_id contractors_config) None committed_world
       = Some (Inr [committed_row, fetched_row], committed_world\<lparr>tick := 1\<rparr>)
   \<and> \<not> write_fails filtering_env 1 \<and> \<not> write_fails filtering_env 3
   \<and> (\<exists>res w'. process_dataset filtering_env ''run1'' ''incremental'' ''contractors''
                   contractors_config None committed_world = Some (res, w')
         \<and> map_of (r2 w') ''raw/contractors/run1/delta.json''
             = Some (Whole (RawRows [committed_row, fetched_row]))
         \<and> map_of (r2 w') ''raw/contractors/run1/meta.json''
             = Some (Whole (Meta 2 ''2025-01-10T10:00:00'' False))
         \<and> map_of (r2 w') ''raw/contractors/run1/full.json'' = None)"
proof -
  have nowm: "\<not> truthy None" by (simp add: truthy_def)
  have fetch: "fetch_socrata_pages filtering_env (cfg_soda_id contractors_config) None committed_world
       = Some (Inr [committed_row, fetched_row], committed_world\<lparr>tick := 1\<rparr>)"
    by code_simp
  have ok: "\<not> write_fails filtering_env 1" "\<not> write_fails filtering_env 3"
    by (simp_all add: filtering_env_def)
  have t: "tick (committed_world\<lparr>tick := 1\<rparr>) = 1" by simp
  have pre: "fetch_socrata_pages filtering_env (cfg_soda_id contractors_config) None committed_world
       = Some (Inr [committed_row, fetched_row], committed_world\<lparr>tick := 1\<rparr>)
     \<and> \<not> write_fails filtering_env (tick (committed_world\<lparr>tick := 1\<rparr>))
     \<and> \<not> write_fails filtering_env (tick (committed_world\<lparr>tick := 1\<rparr>) + 2)"
    using fetch by (simp add: filtering_env_def)
  from incremental_without_watermark
      [OF refl nowm, where env = filtering_env and config = contractors_config
         and w = committed_world and run_id = "''run1''" and key = "''contractors''"] pre
  obtain res w' where
    ret: "process_dataset filtering_env ''run1'' ''incremental'' ''contractors''
                   contractors_config None committed_world = Some (res, w')"
    and d: "map_of (r2 w') (raw_dir ''contractors'' ''run1'' @ ''/delta.json'')
             = Some (Whole (RawRows [committed_row, fetched_row]))"
    and m: "map_of (r2 w') (raw_dir ''contractors'' ''run1'' @ ''/meta.json'')
             = Some (Whole (Meta (length [committed_row, fetched_row])
                  (isoformat (utcnow filtering_env (Suc (tick (committed_world\<lparr>tick := 1\<rparr>))))) False))"
    and f: "map_of (r2 w') (raw_dir ''contractors'' ''run1'' @ ''/full.json'')
             = map_of (r2 committed_world) (raw_dir ''contractors'' ''run1'' @ ''/full.json'')"
    by blast
  have iso: "isoformat (utcnow filtering_env (Suc (tick (committed_world\<lparr>tick := 1\<rparr>))))
               = ''2025-01-10T10:00:00''"
    by code_simp
  have none: "map_of (r2 committed_world) (raw_dir ''contractors'' ''run1'' @ ''/full.json'') = None"
    by code_simp
  from d m f iso none
  have "map_of (r2 w') ''raw/contractors/run1/delta.json''
             = Some (Whole (RawRows [committed_row, fetched_row]))"
    "map_of (r2 w') ''raw/contractors/run1/meta.json''
             = Some (Whole (Meta 2 ''2025-01-10T10:00:00'' False))"
    "map_of (r2 w') ''raw/contractors/run1/full.json'' = None"
    by (simp_all add: raw_dir_def)
  with ret nowm fetch ok show ?thesis by blast
qed

lemma run_datasets_append_fail:
  "run_datasets env cfg run_id mode xs w = Some (Inl e, w') \<Longrightarrow>
   run_datasets env cfg run_id mode (xs @ ys) w = Some (Inl e, w')"
proof (induction xs arbitrary: w)
  case Nil
  then show ?case by simp
next
  case (Cons ds rest)
  then show ?case
    by (auto split: option.splits sum.splits prod.splits)
qed

lemma run_datasets_append_ok:
  "run_datasets env cfg run_id mode xs w = Some (Inr u, w1) \<Longrightarrow>
   run_datasets env cfg run_id mode (xs @ ys) w = run_datasets env cfg run_id mode ys w1"
proof (induction xs arbitrary: w)
  case Nil
  then show ?case by simp
next
  case (Cons ds rest)
  then show ?case
    by (auto split: option.splits sum.splits prod.splits)
qed

section \<open>Properties of the run\<close>

text \<open>
  Claim C2, amended. The datasets are taken in list order. If the loop over an initial
  part of the target list ends in an exception, the run over the whole list ends in the
  same exception and the same state: the remaining datasets are not processed and the
  insights step does not run; the run returns nothing but the exception. If the initial
  part passes without an exception, the loop goes on with the rest from the state
  reached.
\<close>

theorem run_stops_at_first_failure:
  "(run_datasets env cfg run_id mode xs w = Some (Inl e, w') \<longrightarrow>
      run_datasets env cfg run_id mode (xs @ ys) w = Some (Inl e, w')
      \<and> run env cfg run_id mode (xs @ ys) w = Some (Inl e, w'))
   \<and> (run_datasets env cfg run_id mode xs w = Some (Inr (), w1) \<longrightarrow>
      run_datasets env cfg run_id mode (xs @ ys) w = run_datasets env cfg run_id mode ys w1)"
  by (auto simp: run_def run_datasets_append_fail run_datasets_append_ok)

text \<open>
  Claim C2 as stated fails. The first request to the source fails; the run over the
  dataset list \<^verbatim>\<open>contractors,contractors\<close> ends with that error after one interaction and
  writes nothing, although the remaining entry, run on its own from the state reached,
  is processed without error.
\<close>

theorem run_aborts_instead_of_isolating:
  "run flaky_env (DATASET_CONFIG Inr) ''run1'' ''auto'' [''contractors'', ''contractors''] empty_world
     = Some (Inl HTTPError, \<lparr>r2 = [], tick = 1\<rparr>)
   \<and> run flaky_env (DATASET_CONFIG Inr) ''run1'' ''auto'' [''contractors''] \<lparr>r2 = [], tick = 1\<rparr>
     = Some (Inr (),
         \<lparr>r2 = [(''raw/contractors/run1/full.json'', Whole (RawRows [])),
                (''raw/contractors/run1/meta.json'', Whole (Meta 0 ''2025-01-10T10:00:00'' True)),
                (''curated/contractors/_state.json'',
                 Whole (State (Some ''2025-01-10T10:00:00'') ''run1''))],
          tick = 7\<rparr>)"
  by code_simp

theorem run_stops_at_first_failure_witness:
  "run_datasets late_failure_env (DATASET_CONFIG Inr) ''run1'' ''auto''
       [''contractors'', ''contractors''] empty_world
     = Some (Inl HTTPError,
         \<lparr>r2 = [(''raw/contractors/run1/full.json'', Whole (RawRows [])),
                (''raw/contractors/run1/meta.json'', Whole (Meta 0 ''2025-01-10T10:00:00'' True)),
                (''curated/contractors/_state.json'',
                 Whole (State (Some ''2025-01-10T10:00:00'') ''run1''))],
          tick = 7\<rparr>)
   \<and> run late_failure_env (DATASET_CONFIG Inr) ''run1'' ''auto''
       ([''contractors'', ''contractors''] @ [''contractors'']) empty_world
     = Some (Inl HTTPError,
         \<lparr>r2 = [(''raw/contractors/run1/full.json'', Whole (RawRows [])),
                (''raw/contractors/run1/meta.json'', Whole (Meta 0 ''2025-01-10T10:00:00'' True)),
                (''curated/contractors/_state.json'',
                 Whole (State (Some ''2025-01-10T10:00:00'') ''run1''))],
          tick = 7\<rparr>)
   \<and> run_datasets late_failure_env (DATASET_CONFIG Inr) ''run1'' ''auto''
       [''contractors''] empty_world
     = Some (Inr (),
         \<lparr>r2 = [(''raw/contractors/run1/full.json'', Whole (RawRows [])),
                (''raw/contractors/run1/meta.json'', Whole (Meta 0 ''2025-01-10T10:00:00'' True)),
                (''curated/contractors/_state.json'',
                 Whole (State (Some ''2025-01-10T10:00:00'') ''run1''))],
          tick = 6\<rparr>)
   \<and> run_datasets late_failure_env (DATASET_CONFIG Inr) ''run1'' ''auto''
       ([''contractors''] @ [''contractors'']) empty_world
     = run_datasets late_failure_env (DATASET_CONFIG Inr) ''run1'' ''auto'' [''contractors'']
         \<lparr>r2 = [(''raw/contractors/run1/full.json'', Whole (RawRows [])),
                (''raw/contractors/run1/meta.json'', Whole (Meta 0 ''2025-01-10T10:00:00'' True)),
                (''curated/contractors/_state.json'',
                 Whole (State (Some ''2025-01-10T10:00:00'') ''run1''))],
          tick = 6\<rparr>"
proof -
  let ?b = "[(''raw/contractors/run1/full.json'', Whole (RawRows [])),
             (''raw/contractors/run1/meta.json'', Whole (Meta 0 ''2025-01-10T10:00:00'' True)),
             (''curated/contractors/_state.json'',
              Whole (State (Some ''2025-01-10T10:00:00'') ''run1''))]"
  have fails: "run_datasets late_failure_env (DATASET_CONFIG Inr) ''run1'' ''auto''
       [''contractors'', ''contractors''] empty_world
     = Some (Inl HTTPError, \<lparr>r2 = ?b, tick = 7\<rparr>)"
    by code_simp
  have passes: "run_datasets late_failure_env (DATASET_CONFIG Inr) ''run1'' ''auto''
       [''contractors''] empty_world
     = Some (Inr (), \<lparr>r2 = ?b, tick = 6\<rparr>)"
    by code_simp
  from fails run_stops_at_first_failure
    [where env = late_failure_env and cfg = "DATASET_CONFIG Inr" and run_id = "''run1''"
       and mode = "''auto''" and xs = "[''contractors'', ''contractors'']" and w = empty_world
       and e = HTTPError and w' = "\<lparr>r2 = ?b, tick = 7\<rparr>" and ys = "[''contractors'']"]
  have stop: "run late_failure_env (DATASET_CONFIG Inr) ''run1'' ''auto''
       ([''contractors'', ''contractors''] @ [''contractors'']) empty_world
     = Some (Inl HTTPError, \<lparr>r2 = ?b, tick = 7\<rparr>)"
    by blast
  from passes run_stops_at_first_failure
    [where env = late_failure_env and cfg = "DATASET_CONFIG Inr" and run_id = "''run1''"
       and mode = "''auto''" and xs = "[''contractors'']" and w = empty_world
       and ys = "[''contractors'']" and ?w1.0 = "\<lparr>r2 = ?b, tick = 6\<rparr>"]
  have go_on: "run_datasets late_failure_env (DATASET_CONFIG Inr) ''run1'' ''auto''
       ([''contractors''] @ [''contractors'']) empty_world
     = run_datasets late_failure_env (DATASET_CONFIG Inr) ''run1'' ''auto'' [''contractors'']
         \<lparr>r2 = ?b, tick = 6\<rparr>"
    by blast
  from fails stop passes go_on show ?thesis by blast
qed

text \<open>
  Claim C7 against the code. The stored watermark \<^verbatim>\<open>not-a-timestamp\<close> does not parse; in
  mode \<^verbatim>\<open>incremental\<close> the fetch-since value stays unset, the request carries no \<^verbatim>\<open>$where\<close>
  clause, the source returns all its rows, and \<open>process_dataset\<close> stores them as a delta
  and merges them without raising.
\<close>

theorem unparseable_watermark_full_fetch:
  "read_watermark (r2 bad_watermark_world) (state_path ''contractors'') = Inr (Some ''not-a-timestamp'')
   \<and> fromisoformat (iso_reader filtering_env) (replace_Z ''not-a-timestamp'') = None
   \<and> \<not> is_bootstrap_of ''incremental'' (Some ''not-a-timestamp'')
   \<and> fetch_since_of (iso_reader filtering_env)
        (is_bootstrap_of ''incremental'' (Some ''not-a-timestamp''))
        (Some ''not-a-timestamp'') = None
   \<and> where_clause (fetch_params None 0) = None
   \<and> process_dataset filtering_env ''run1'' ''incremental'' ''contractors'' contractors_config
        (Some ''not-a-timestamp'') bad_watermark_world
      = Some (Inr (),
         \<lparr>r2 = [(''curated/contractors/_state.json'',
                 Whole (State (Some ''not-a-timestamp'') ''run0'')),
                (''raw/contractors/run1/delta.json'',
                 Whole (RawRows [committed_row, fetched_row])),
                (''raw/contractors/run1/meta.json'',
                 Whole (Meta 2 ''2025-01-10T10:00:00'' False)),
                (''curated/contractors/parquet/data.parquet'',
                 Whole (Parquet [committed_row, fetched_row]))],
          tick = 5\<rparr>)"
  by code_simp

text \<open>
  Claim C1 against the code. A bucket holds a committed curated table. The write of the
  merged table fails part-way: the run ends with the error and the curated path holds a
  torn file, the committed table is gone. The same failure in the write of the raw
  snapshot, which goes through \<open>write_bytes\<close>, leaves only a torn \<^verbatim>\<open>.tmp\<close> file behind.
\<close>

theorem curated_write_is_not_atomic:
  "map_of (r2 committed_world) ''curated/contractors/parquet/data.parquet''
     = Some (Whole (Parquet [committed_row]))
   \<and> run torn_write_env (DATASET_CONFIG Inr) ''run1'' ''incremental'' [''contractors'']
       committed_world
     = Some (Inl OSError,
         \<lparr>r2 = [(''curated/contractors/parquet/data.parquet'',
                 Torn (Parquet [committed_row, fetched_row])),
                (''raw/contractors/run1/delta.json'', Whole (RawRows [fetched_row])),
                (''raw/contractors/run1/meta.json'',
                 Whole (Meta 1 ''2025-01-10T10:00:00'' False))],
          tick = 5\<rparr>)
   \<and> run torn_raw_env (DATASET_CONFIG Inr) ''run1'' ''incremental'' [''contractors'']
       committed_world
     = Some (Inl OSError,
         \<lparr>r2 = [(''curated/contractors/parquet/data.parquet'',
                 Whole (Parquet [committed_row])),
                (''raw/contractors/run1/delta.json.tmp'', Torn (RawRows [fetched_row]))],
          tick = 2\<rparr>)"
  by code_simp

end
